theory Spec2Isabelle
  imports Complex_Main
begin

section \<open>Time\<close>

text \<open>
  A naive UTC \<^verbatim>\<open>datetime\<close> is the number of microseconds since 0001-01-01 00:00:00, the
  scale on which Python does datetime arithmetic and comparison. The timeline is taken
  unbounded. The readings of \<^verbatim>\<open>datetime.utcnow()\<close> within one call are taken as one
  instant, which the call receives as \<open>now\<close>.
\<close>

type_synonym datetime = int

definition us_per_day :: int where
  "us_per_day = 86400000000"

definition timedelta_days :: "int \<Rightarrow> int" where
  "timedelta_days d = d * us_per_day"

text \<open>\<^verbatim>\<open>.date()\<close> and SQL \<^verbatim>\<open>date(...)\<close>: the calendar day, as a day number.\<close>

definition date_of :: "datetime \<Rightarrow> int" where
  "date_of t = t div us_per_day"

definition days_before_month :: "int list" where
  "days_before_month = [0, 0, 31, 59, 90, 120, 151, 181, 212, 243, 273, 304, 334]"

definition days_in_month :: "int list" where
  "days_in_month = [0, 31, 28, 31, 30, 31, 30, 31, 31, 30, 31, 30, 31]"

text \<open>
  Day of the month (1..31) of a day number in the proleptic Gregorian calendar, by the
  400/100/4/1-year cycle decomposition that the datetime library uses.
\<close>

definition day_of_month :: "int \<Rightarrow> int" where
  "day_of_month dn =
     (let n0 = dn mod 146097;
          n100 = n0 div 36524; n1' = n0 mod 36524;
          n4 = n1' div 1461; n2 = n1' mod 1461;
          n1 = n2 div 365; n = n2 mod 365
      in if n1 = 4 \<or> n100 = 4 then 31
         else
           let leapyear = (n1 = 3 \<and> (n4 \<noteq> 24 \<or> n100 = 3));
               month = (n + 50) div 32;
               preceding = days_before_month ! nat month
                           + (if month > 2 \<and> leapyear then 1 else 0)
           in if preceding > n
              then n - (preceding - (days_in_month ! nat (month - 1)
                                     + (if month - 1 = 2 \<and> leapyear then 1 else 0))) + 1
              else n - preceding + 1)"

text \<open>\<^verbatim>\<open>now.replace(day=1, hour=0, minute=0, second=0, microsecond=0)\<close>\<close>

definition start_of_month :: "datetime \<Rightarrow> datetime" where
  "start_of_month now = (date_of now - (day_of_month (date_of now) - 1)) * us_per_day"

section \<open>Data model (\<^verbatim>\<open>app/database/models.py\<close>)\<close>

text \<open>
  Only the columns that the billing and payment services read or write are kept. The
  \<^verbatim>\<open>users\<close> table is keyed by its primary key; the other tables are row lists in insertion
  order, because their queries filter on columns that carry no uniqueness constraint.
\<close>

record user =
  trial_left :: int
  plan_id :: "int option"
  plan_until :: "datetime option"
  banned :: bool

record plan =
  plan_ident :: int
  plan_name :: string
  monthly_quota :: int

record usage_row =
  usage_user_id :: int
  usage_date :: datetime
  requests :: int
  prompt_tokens :: int
  completion_tokens :: int
  total_tokens :: int

datatype json_number = Number rat | NotANumber

text \<open>
  The parsed gateway notification
  \<^verbatim>\<open>{object: {id, status, amount: {value}, metadata: {user_id, plan_name}}}\<close>;
  \<open>None\<close> is a key that \<^verbatim>\<open>.get\<close> does not find.
\<close>

record webhook =
  wh_id :: "string option"
  wh_status :: "string option"
  wh_user_id :: "int option"
  wh_plan_name :: "string option"
  wh_amount_value :: "json_number option"

text \<open>The JSON \<^verbatim>\<open>payload\<close> column of a purchase, one field per key the services write.\<close>

record payload =
  idempotency_key :: "string option"
  telegram_charge_id :: "string option"
  yoomoney_payment_id :: "string option"
  payload_plan_name :: string
  webhook_data :: "webhook option"

record purchase =
  purchase_id :: int
  purchase_user_id :: int
  purchase_plan_id :: int
  via :: string
  status :: string
  amount :: rat
  currency :: string
  purchase_payload :: payload
  completed_at :: "datetime option"

record db =
  users :: "int \<rightharpoonup> user"
  plans :: "plan list"
  purchases :: "purchase list"
  usage :: "usage_row list"

section \<open>The database session\<close>

text \<open>
  A session holds the durable state (\<open>committed\<close>) and the state of the open transaction
  (\<open>working\<close>), which queries read and writes change. The serial counter of
  \<^verbatim>\<open>purchases.id\<close> is not transactional: a rolled back insert still uses up its value.
  \<open>foreign_keys\<close> says whether the flush of a pending purchase is checked against the foreign
  keys that the models declare, as it is on a store that enforces them.
\<close>

record session =
  committed :: db
  working :: db
  purchases_id_seq :: nat
  foreign_keys :: bool

definition commit :: "session \<Rightarrow> session" where
  "commit s = s\<lparr>committed := working s\<rparr>"

definition rollback :: "session \<Rightarrow> session" where
  "rollback s = s\<lparr>working := committed s\<rparr>"

datatype error = MultipleResultsFound | ValueError | IntegrityError | ProgrammingError

fun scalar_one_or_none :: "'a list \<Rightarrow> error + 'a option" where
  "scalar_one_or_none [] = Inr None"
| "scalar_one_or_none [x] = Inr (Some x)"
| "scalar_one_or_none (x # y # zs) = Inl MultipleResultsFound"

text \<open>Python truthiness of an optional integer and of an optional string.\<close>

definition truthy_int :: "int option \<Rightarrow> bool" where
  "truthy_int v = (case v of None \<Rightarrow> False | Some i \<Rightarrow> i \<noteq> 0)"

definition truthy_str :: "string option \<Rightarrow> bool" where
  "truthy_str v = (case v of None \<Rightarrow> False | Some x \<Rightarrow> x \<noteq> [])"

section \<open>Quota engine (\<^verbatim>\<open>app/services/billing_service.py\<close>)\<close>

record billing_service =
  trial_requests :: int

record quota =
  q_trial_left :: int
  q_plan_name :: "string option"
  q_plan_until :: "datetime option"
  q_monthly_quota :: int
  used_this_month :: int
  remaining :: int
  is_trial :: bool
  is_active :: bool

text \<open>
  The test \<^verbatim>\<open>user.plan_id and user.plan_until and user.plan_until > datetime.utcnow()\<close>,
  which \<^verbatim>\<open>get_user_quota\<close> and \<^verbatim>\<open>consume_request\<close> both make.
\<close>

definition has_active_plan :: "user \<Rightarrow> datetime \<Rightarrow> bool" where
  "has_active_plan u now =
     (truthy_int (plan_id u) \<and> (case plan_until u of None \<Rightarrow> False | Some t \<Rightarrow> t > now))"

text \<open>The relationship \<^verbatim>\<open>user.plan\<close>: the plan row that \<^verbatim>\<open>plan_id\<close> refers to, if any.\<close>

definition user_plan :: "db \<Rightarrow> user \<Rightarrow> plan option" where
  "user_plan d u =
     (case plan_id u of None \<Rightarrow> None
      | Some pid \<Rightarrow> find (\<lambda>p. plan_ident p = pid) (plans d))"

definition get_user_quota ::
  "billing_service \<Rightarrow> session \<Rightarrow> int \<Rightarrow> datetime \<Rightarrow> quota \<times> session" where
  "get_user_quota self s user_id now =
     (case users (working s) user_id of
        None \<Rightarrow>
          (\<lparr>q_trial_left = trial_requests self, q_plan_name = None, q_plan_until = None,
            q_monthly_quota = 0, used_this_month = 0, remaining = trial_requests self,
            is_trial = True, is_active = True\<rparr>, s)
      | Some u \<Rightarrow>
          (let active = has_active_plan u now;
               pl = user_plan (working s) u;
               pname = (if active then map_option plan_name pl else None);
               mq = (if active then (case pl of Some p \<Rightarrow> monthly_quota p | None \<Rightarrow> 0)
                     else 0);
               used = sum_list (map requests
                        (filter (\<lambda>r. usage_user_id r = user_id
                                      \<and> usage_date r \<ge> start_of_month now)
                           (usage (working s))));
               rem = (if active then max 0 (mq - used) else max 0 (trial_left u))
           in (\<lparr>q_trial_left = trial_left u, q_plan_name = pname,
                q_plan_until = plan_until u, q_monthly_quota = mq, used_this_month = used,
                remaining = rem, is_trial = (\<not> active), is_active = active\<rparr>, s)))"

definition can_make_request ::
  "billing_service \<Rightarrow> session \<Rightarrow> int \<Rightarrow> datetime \<Rightarrow> bool \<times> session" where
  "can_make_request self s user_id now =
     (case get_user_quota self s user_id now of (q, s') \<Rightarrow> (remaining q > 0, s'))"

text \<open>
  \<^verbatim>\<open>_log_usage\<close>: today's row of the user is incremented in place, or a new row is
  inserted whose \<^verbatim>\<open>date\<close> takes the column default, the current time. The lookup raises
  when more than one row matches.
\<close>

definition todays_row :: "int \<Rightarrow> int \<Rightarrow> usage_row \<Rightarrow> bool" where
  "todays_row user_id today r = (usage_user_id r = user_id \<and> date_of (usage_date r) = today)"

definition log_usage :: "session \<Rightarrow> int \<Rightarrow> int \<Rightarrow> datetime \<Rightarrow> (error + unit) \<times> session" where
  "log_usage s user_id tokens now =
     (let today = date_of now;
          d = working s
      in case scalar_one_or_none (filter (todays_row user_id today) (usage d)) of
           Inl e \<Rightarrow> (Inl e, s)
         | Inr (Some _) \<Rightarrow>
             (Inr (), commit (s\<lparr>working := d\<lparr>usage :=
                map (\<lambda>r. if todays_row user_id today r
                          then r\<lparr>requests := requests r + 1,
                                 total_tokens := total_tokens r + tokens\<rparr>
                          else r) (usage d)\<rparr>\<rparr>))
         | Inr None \<Rightarrow>
             (Inr (), commit (s\<lparr>working := d\<lparr>usage := usage d @
                [\<lparr>usage_user_id = user_id, usage_date = now, requests = 1,
                  prompt_tokens = 0, completion_tokens = 0, total_tokens = tokens\<rparr>]\<rparr>\<rparr>)))"

definition consume_request ::
  "session \<Rightarrow> int \<Rightarrow> int \<Rightarrow> datetime \<Rightarrow> (error + bool) \<times> session" where
  "consume_request s user_id tokens now =
     (case users (working s) user_id of
        None \<Rightarrow> (Inr False, s)
      | Some u \<Rightarrow>
          if has_active_plan u now then
            (case log_usage s user_id tokens now of
               (Inl e, s') \<Rightarrow> (Inl e, s')
             | (Inr _, s') \<Rightarrow> (Inr True, s'))
          else if trial_left u > 0 then
            (case log_usage
                    (s\<lparr>working := (working s)\<lparr>users := (users (working s))
                         (user_id \<mapsto> u\<lparr>trial_left := trial_left u - 1\<rparr>)\<rparr>\<rparr>)
                    user_id tokens now of
               (Inl e, s') \<Rightarrow> (Inl e, s')
             | (Inr _, s') \<Rightarrow> (Inr True, commit s'))
          else (Inr False, s))"

definition activate_plan ::
  "session \<Rightarrow> int \<Rightarrow> int \<Rightarrow> int \<Rightarrow> datetime \<Rightarrow> bool \<times> session" where
  "activate_plan s user_id pid duration_days now =
     (case users (working s) user_id of
        None \<Rightarrow> (False, s)
      | Some u \<Rightarrow>
          (True, commit (s\<lparr>working := (working s)\<lparr>users := (users (working s))
             (user_id \<mapsto> u\<lparr>plan_id := Some pid,
                              plan_until := Some (now + timedelta_days duration_days)\<rparr>)\<rparr>\<rparr>)))"

section \<open>Payment reconciler (\<^verbatim>\<open>app/services/payment_service.py\<close>)\<close>

text \<open>
  The three statements that the service builds by formatting a value into SQL text, between
  quote characters:
  \<^verbatim>\<open>SELECT id FROM purchases WHERE payload->>'idempotency_key' = '{idempotency_key}'\<close>,
  \<^verbatim>\<open>SELECT id FROM purchases WHERE payload->>'yoomoney_payment_id' = '{payment_id}'\<close> and
  \<^verbatim>\<open>SELECT id FROM plans WHERE name = '{plan_name}'\<close>.
\<close>

datatype text_query =
    PurchaseByIdempotencyKey string
  | PurchaseByYoomoneyPaymentId string
  | PlanByName string

text \<open>
  The HMAC-SHA256 hex digest and the JSON serialiser belong to the standard library and are
  parameters of the service, next to the configured webhook secret. So is what the store
  makes of a statement whose value does not stay inside its string literal: a result of
  the store's choosing, and a session of its choosing.
\<close>

record payment_service =
  yoomoney_webhook_secret :: string
  hmac_sha256_hexdigest :: "string \<Rightarrow> string \<Rightarrow> string"
  json_dumps :: "webhook \<Rightarrow> string"
  broken_statement :: "text_query \<Rightarrow> session \<Rightarrow> (error + int option) \<times> session"

text \<open>
  A value stays inside its literal, and the statement is the comparison it spells, when the
  value has no quote character, no backslash and no colon (which opens a bind parameter in
  a text statement).
\<close>

definition sql_plain :: "string \<Rightarrow> bool" where
  "sql_plain v = (CHR 0x27 \<notin> set v \<and> CHR 0x5C \<notin> set v \<and> CHR 0x3A \<notin> set v)"

text \<open>\<^verbatim>\<open>session.execute(...)\<close> of such a statement, followed by \<^verbatim>\<open>scalar_one_or_none()\<close>.\<close>

definition execute_scalar ::
  "payment_service \<Rightarrow> session \<Rightarrow> text_query \<Rightarrow> (error + int option) \<times> session" where
  "execute_scalar self s q =
     (case q of
        PurchaseByIdempotencyKey k \<Rightarrow>
          if sql_plain k
          then (scalar_one_or_none (map purchase_id
                  (filter (\<lambda>p. idempotency_key (purchase_payload p) = Some k)
                     (purchases (working s)))), s)
          else broken_statement self q s
      | PurchaseByYoomoneyPaymentId k \<Rightarrow>
          if sql_plain k
          then (scalar_one_or_none (map purchase_id
                  (filter (\<lambda>p. yoomoney_payment_id (purchase_payload p) = Some k)
                     (purchases (working s)))), s)
          else broken_statement self q s
      | PlanByName n \<Rightarrow>
          if sql_plain n
          then (scalar_one_or_none (map plan_ident
                  (filter (\<lambda>p. plan_name p = n) (plans (working s)))), s)
          else broken_statement self q s)"

text \<open>Python's \<^verbatim>\<open>str\<close> of an integer, as the f-string of the idempotency key renders it.\<close>

definition digit_char :: "nat \<Rightarrow> char" where
  "digit_char n = char_of (48 + n)"

function str_nat :: "nat \<Rightarrow> string" where
  "str_nat n = (if n < 10 then [digit_char n] else str_nat (n div 10) @ [digit_char (n mod 10)])"
  by pat_completeness auto
termination
  by (relation "measure id") auto

declare str_nat.simps [simp del]

definition str_int :: "int \<Rightarrow> string" where
  "str_int i = (if i < 0 then CHR ''-'' # str_nat (nat (- i)) else str_nat (nat i))"

text \<open>
  The rows that \<^verbatim>\<open>purchases.user_id\<close> and \<^verbatim>\<open>purchases.plan_id\<close> refer to
  (\<^verbatim>\<open>ForeignKey("users.id")\<close>, \<^verbatim>\<open>ForeignKey("plans.id")\<close>) exist.
\<close>

definition references_exist :: "db \<Rightarrow> purchase \<Rightarrow> bool" where
  "references_exist d p =
     (users d (purchase_user_id p) \<noteq> None
      \<and> purchase_plan_id p \<in> set (map plan_ident (plans d)))"

text \<open>
  \<^verbatim>\<open>session.add(purchase)\<close> followed by the flush that the next query, the first of
  \<^verbatim>\<open>activate_plan\<close>, triggers. The insert takes the next value of the serial counter as the
  row's id. Where foreign keys are checked and a referenced row is missing, the insert
  raises \<^verbatim>\<open>IntegrityError\<close> and the transaction is over; otherwise the row joins the open
  transaction.
\<close>

definition add_purchase :: "session \<Rightarrow> purchase \<Rightarrow> (error + unit) \<times> session" where
  "add_purchase s p =
     (if foreign_keys s \<and> \<not> references_exist (working s) p
      then (Inl IntegrityError, rollback (s\<lparr>purchases_id_seq := Suc (purchases_id_seq s)\<rparr>))
      else (Inr (),
            s\<lparr>working := (working s)\<lparr>purchases := purchases (working s) @
                 [p\<lparr>purchase_id := int (Suc (purchases_id_seq s))\<rparr>]\<rparr>,
              purchases_id_seq := Suc (purchases_id_seq s)\<rparr>))"

text \<open>
  The tail that both payment paths share: insert the completed purchase, activate the plan
  with the default duration of 30 days, then commit or roll back.
\<close>

definition record_and_activate ::
  "session \<Rightarrow> purchase \<Rightarrow> int \<Rightarrow> int \<Rightarrow> datetime \<Rightarrow> (error + bool) \<times> session" where
  "record_and_activate s p user_id pid now =
     (case add_purchase s p of
        (Inl e, s') \<Rightarrow> (Inl e, s')
      | (Inr _, s1) \<Rightarrow>
          (case activate_plan s1 user_id pid 30 now of
             (success, s') \<Rightarrow>
               if success then (Inr True, commit s') else (Inr False, rollback s')))"

definition stars_idempotency_key :: "int \<Rightarrow> string \<Rightarrow> string \<Rightarrow> string" where
  "stars_idempotency_key user_id pname charge_id =
     ''stars_'' @ str_int user_id @ ''_'' @ pname @ ''_'' @ charge_id"

text \<open>
  The row built by \<^verbatim>\<open>Purchase(...)\<close> in the in-app path; its id is assigned on insert.
\<close>

definition stars_purchase ::
  "int \<Rightarrow> int \<Rightarrow> string \<Rightarrow> string \<Rightarrow> int \<Rightarrow> datetime \<Rightarrow> purchase" where
  "stars_purchase user_id pid pname charge_id amnt now =
     \<lparr>purchase_id = 0, purchase_user_id = user_id, purchase_plan_id = pid,
      via = ''stars'', status = ''completed'', amount = of_int amnt, currency = ''STARS'',
      purchase_payload =
        \<lparr>idempotency_key = Some (stars_idempotency_key user_id pname charge_id),
         telegram_charge_id = Some charge_id, yoomoney_payment_id = None,
         payload_plan_name = pname, webhook_data = None\<rparr>,
      completed_at = Some now\<rparr>"

definition process_stars_payment ::
  "payment_service \<Rightarrow> session \<Rightarrow> int \<Rightarrow> string \<Rightarrow> string \<Rightarrow> int \<Rightarrow> datetime
     \<Rightarrow> (error + bool) \<times> session" where
  "process_stars_payment self s user_id pname charge_id amnt now =
     (let key = stars_idempotency_key user_id pname charge_id
      in case execute_scalar self s (PurchaseByIdempotencyKey key) of
           (Inl e, s1) \<Rightarrow> (Inl e, s1)
         | (Inr existing_purchase, s1) \<Rightarrow>
             if truthy_int existing_purchase then (Inr True, s1)
             else
               (case execute_scalar self s1 (PlanByName pname) of
                  (Inl e, s2) \<Rightarrow> (Inl e, s2)
                | (Inr None, s2) \<Rightarrow> (Inr False, s2)
                | (Inr (Some pid), s2) \<Rightarrow>
                    if pid = 0 then (Inr False, s2)
                    else record_and_activate s2
                           (stars_purchase user_id pid pname charge_id amnt now)
                           user_id pid now))"

definition verify_yoomoney_signature :: "payment_service \<Rightarrow> webhook \<Rightarrow> string \<Rightarrow> bool" where
  "verify_yoomoney_signature self wh signature =
     (signature = hmac_sha256_hexdigest self (yoomoney_webhook_secret self) (json_dumps self wh))"

text \<open>The row built by \<^verbatim>\<open>Purchase(...)\<close> in the gateway path.\<close>

definition yoomoney_purchase ::
  "int \<Rightarrow> int \<Rightarrow> string \<Rightarrow> string \<Rightarrow> webhook \<Rightarrow> rat \<Rightarrow> datetime \<Rightarrow> purchase" where
  "yoomoney_purchase user_id pid payment_id pname wh amnt now =
     \<lparr>purchase_id = 0, purchase_user_id = user_id, purchase_plan_id = pid,
      via = ''yoomoney'', status = ''completed'', amount = amnt, currency = ''RUB'',
      purchase_payload =
        \<lparr>idempotency_key = None, telegram_charge_id = None,
         yoomoney_payment_id = Some payment_id, payload_plan_name = pname,
         webhook_data = Some wh\<rparr>,
      completed_at = Some now\<rparr>"

text \<open>
  \<^verbatim>\<open>process_yoomoney_webhook\<close> in two parts. The first reads only: the signature, the
  status and metadata guards, the duplicate check and the plan lookup. It ends in the
  value to return, or in the user, plan id, payment id and plan name to go on with.
\<close>

datatype check_result = Return bool | Proceed int int string string

definition yoomoney_check ::
  "payment_service \<Rightarrow> session \<Rightarrow> webhook \<Rightarrow> string \<Rightarrow> (error + check_result) \<times> session" where
  "yoomoney_check self s wh signature =
     (if \<not> verify_yoomoney_signature self wh signature then (Inr (Return False), s)
      else if \<not> truthy_str (wh_id wh) \<or> wh_status wh \<noteq> Some ''succeeded''
        then (Inr (Return False), s)
      else if \<not> truthy_int (wh_user_id wh) \<or> \<not> truthy_str (wh_plan_name wh)
        then (Inr (Return False), s)
      else
        (case (wh_id wh, wh_user_id wh, wh_plan_name wh) of
           (Some payment_id, Some user_id, Some pname) \<Rightarrow>
             (case execute_scalar self s (PurchaseByYoomoneyPaymentId payment_id) of
                (Inl e, s1) \<Rightarrow> (Inl e, s1)
              | (Inr existing_purchase, s1) \<Rightarrow>
                  if truthy_int existing_purchase then (Inr (Return True), s1)
                  else
                    (case execute_scalar self s1 (PlanByName pname) of
                       (Inl e, s2) \<Rightarrow> (Inl e, s2)
                     | (Inr None, s2) \<Rightarrow> (Inr (Return False), s2)
                     | (Inr (Some pid), s2) \<Rightarrow>
                         if pid = 0 then (Inr (Return False), s2)
                         else (Inr (Proceed user_id pid payment_id pname), s2)))
         | _ \<Rightarrow> (Inr (Return False), s)))"

text \<open>
  The second part converts the amount, builds the purchase and hands over to the shared
  tail.
\<close>

definition yoomoney_finish ::
  "error + check_result \<Rightarrow> session \<Rightarrow> webhook \<Rightarrow> datetime \<Rightarrow> (error + bool) \<times> session" where
  "yoomoney_finish checked s wh now =
     (case checked of
        Inl e \<Rightarrow> (Inl e, s)
      | Inr (Return result) \<Rightarrow> (Inr result, s)
      | Inr (Proceed user_id pid payment_id pname) \<Rightarrow>
          (case wh_amount_value wh of
             Some NotANumber \<Rightarrow> (Inl ValueError, s)
           | amount_value \<Rightarrow>
               record_and_activate s
                 (yoomoney_purchase user_id pid payment_id pname wh
                    (case amount_value of Some (Number r) \<Rightarrow> r | _ \<Rightarrow> 0)
                    now)
                 user_id pid now))"

definition process_yoomoney_webhook ::
  "payment_service \<Rightarrow> session \<Rightarrow> webhook \<Rightarrow> string \<Rightarrow> datetime \<Rightarrow> (error + bool) \<times> session" where
  "process_yoomoney_webhook self s wh signature now =
     (case yoomoney_check self s wh signature of
        (checked, s') \<Rightarrow> yoomoney_finish checked s' wh now)"

text \<open>
  Modelled from the spec: the session factory (\<^verbatim>\<open>app/database/connection.py\<close>) is not
  among the sources. By the spec's concurrency model every request handler runs its own
  transaction against the shared store, suspends at each \<^verbatim>\<open>await\<close> and holds no lock
  across it. A session that has written nothing, once another session's transaction has
  ended, reads the store which that one left.
\<close>

definition after_other :: "session \<Rightarrow> session \<Rightarrow> session" where
  "after_other s other =
     s\<lparr>committed := committed other, working := committed other,
       purchases_id_seq := purchases_id_seq other\<rparr>"

text \<open>
  Two deliveries of one notification, each in a session of its own on the same store. Both
  make their checks before either goes on; then the first finishes, and the second
  finishes on the store as the first left it.
\<close>

definition racing_deliveries ::
  "payment_service \<Rightarrow> session \<Rightarrow> webhook \<Rightarrow> string \<Rightarrow> datetime
     \<Rightarrow> (error + bool) \<times> (error + bool) \<times> session" where
  "racing_deliveries self s wh signature now =
     (case yoomoney_check self s wh signature of
        (checked_a, sa) \<Rightarrow>
     (case yoomoney_check self s wh signature of
        (checked_b, sb) \<Rightarrow>
     (case yoomoney_finish checked_a sa wh now of
        (result_a, sa') \<Rightarrow>
     (case yoomoney_finish checked_b (after_other sb sa') wh now of
        (result_b, sb') \<Rightarrow> (result_a, result_b, sb')))))"

section \<open>Webhook endpoint (\<^verbatim>\<open>app/api/routers/payments.py\<close>)\<close>

datatype http_result = Ok_200 | HTTPException nat string

text \<open>
  The signature header and the request body arrive as options: no header, and a body that
  is not JSON, are \<open>None\<close>.
\<close>

definition yoomoney_webhook ::
  "payment_service \<Rightarrow> session \<Rightarrow> string option \<Rightarrow> webhook option \<Rightarrow> datetime
     \<Rightarrow> (error + http_result) \<times> session" where
  "yoomoney_webhook self s signature body now =
     (case signature of
        None \<Rightarrow> (Inr (HTTPException 400 ''Missing signature''), s)
      | Some sig \<Rightarrow>
          if sig = [] then (Inr (HTTPException 400 ''Missing signature''), s)
          else
            (case body of
               None \<Rightarrow> (Inr (HTTPException 400 ''Invalid JSON''), s)
             | Some wh \<Rightarrow>
                 (case process_yoomoney_webhook self s wh sig now of
                    (Inl e, s') \<Rightarrow> (Inl e, s')
                  | (Inr success, s') \<Rightarrow>
                      if success then (Inr Ok_200, s')
                      else (Inr (HTTPException 400 ''Webhook processing failed''), s'))))"

section \<open>History truncation (\<^verbatim>\<open>app/services/openai_service.py\<close>)\<close>





section \<open>Chat endpoint (\<^verbatim>\<open>app/api/routers/chat.py\<close>)\<close>

text \<open>The quota gate that opens \<^verbatim>\<open>send_message\<close> and \<^verbatim>\<open>stream_message\<close>.\<close>

definition send_message_gate ::
  "billing_service \<Rightarrow> session \<Rightarrow> int \<Rightarrow> datetime \<Rightarrow> http_result option \<times> session" where
  "send_message_gate self s user_id now =
     (case can_make_request self s user_id now of
        (can_request, s') \<Rightarrow>
          if \<not> can_request
          then (Some (HTTPException 402 ''Insufficient quota. Please upgrade your plan.''), s')
          else (None, s'))"

section \<open>Runs of calls and store invariants\<close>

text \<open>
  A run applies one operation after the other on the same session and keeps, for each call,
  its result and the session it leaves behind.
\<close>

fun consume_requests ::
  "session \<Rightarrow> int \<Rightarrow> (int \<times> datetime) list \<Rightarrow> ((error + bool) \<times> session) list" where
  "consume_requests s user_id [] = []"
| "consume_requests s user_id ((tokens, now) # calls) =
     (case consume_request s user_id tokens now of
        (r, s') \<Rightarrow> (r, s') # consume_requests s' user_id calls)"


datatype payment_event =
    StarsPayment int string string int datetime
  | GatewayWebhook webhook string datetime

fun process_event ::
  "payment_service \<Rightarrow> session \<Rightarrow> payment_event \<Rightarrow> (error + bool) \<times> session" where
  "process_event self s (StarsPayment user_id pname charge_id amnt now) =
     process_stars_payment self s user_id pname charge_id amnt now"
| "process_event self s (GatewayWebhook wh signature now) =
     process_yoomoney_webhook self s wh signature now"

fun process_events ::
  "payment_service \<Rightarrow> session \<Rightarrow> payment_event list \<Rightarrow> ((error + bool) \<times> session) list" where
  "process_events self s [] = []"
| "process_events self s (ev # evs) =
     (case process_event self s ev of (r, s') \<Rightarrow> (r, s') # process_events self s' evs)"


definition requests_on :: "db \<Rightarrow> int \<Rightarrow> int \<Rightarrow> int" where
  "requests_on d user_id day =
     sum_list (map requests (filter (todays_row user_id day) (usage d)))"

text \<open>The store keeps at most one usage row per user and calendar day.\<close>

definition usage_keyed :: "db \<Rightarrow> bool" where
  "usage_keyed d = (\<forall>user_id day. length (filter (todays_row user_id day) (usage d)) \<le> 1)"

definition trial_left_of :: "session \<Rightarrow> int \<Rightarrow> int option" where
  "trial_left_of s user_id = map_option trial_left (users (working s) user_id)"

text \<open>
  The completed purchases that carry a given idempotency key: the composite key of the
  in-app path, and the gateway's payment id.
\<close>

definition completed_in_app :: "db \<Rightarrow> string \<Rightarrow> purchase list" where
  "completed_in_app d k =
     filter (\<lambda>p. status p = ''completed'' \<and> idempotency_key (purchase_payload p) = Some k)
       (purchases d)"

definition completed_gateway :: "db \<Rightarrow> string \<Rightarrow> purchase list" where
  "completed_gateway d k =
     filter (\<lambda>p. status p = ''completed'' \<and> yoomoney_payment_id (purchase_payload p) = Some k)
       (purchases d)"

text \<open>
  The state of a purchase table that only the reconciler has written: serial ids are not
  zero, every row is completed, and no key has two completed rows. It holds of the empty
  table.
\<close>

definition reconciled_db :: "db \<Rightarrow> bool" where
  "reconciled_db d =
     ((\<forall>p \<in> set (purchases d). purchase_id p \<noteq> 0 \<and> status p = ''completed'')
      \<and> (\<forall>k. length (completed_in_app d k) \<le> 1 \<and> length (completed_gateway d k) \<le> 1))"

definition reconciled :: "session \<Rightarrow> bool" where
  "reconciled s = (reconciled_db (committed s) \<and> reconciled_db (working s))"

fun event_key_completed :: "db \<Rightarrow> payment_event \<Rightarrow> bool" where
  "event_key_completed d (StarsPayment user_id pname charge_id amnt now) =
     (completed_in_app d (stars_idempotency_key user_id pname charge_id) \<noteq> [])"
| "event_key_completed d (GatewayWebhook wh signature now) =
     (case wh_id wh of None \<Rightarrow> False | Some k \<Rightarrow> completed_gateway d k \<noteq> [])"

text \<open>
  An event that reaches the duplicate check: every in-app confirmation, and a gateway
  notification that is signed, succeeded and carries its metadata.
\<close>

fun event_accepted :: "payment_service \<Rightarrow> payment_event \<Rightarrow> bool" where
  "event_accepted self (StarsPayment user_id pname charge_id amnt now) = True"
| "event_accepted self (GatewayWebhook wh signature now) =
     (verify_yoomoney_signature self wh signature \<and> truthy_str (wh_id wh)
      \<and> wh_status wh = Some ''succeeded'' \<and> truthy_int (wh_user_id wh)
      \<and> truthy_str (wh_plan_name wh))"

text \<open>The values that an event has formatted into statement text are plain.\<close>

fun event_plain :: "payment_event \<Rightarrow> bool" where
  "event_plain (StarsPayment user_id pname charge_id amnt now) =
     (sql_plain (stars_idempotency_key user_id pname charge_id) \<and> sql_plain pname)"
| "event_plain (GatewayWebhook wh signature now) =
     ((case wh_id wh of None \<Rightarrow> True | Some payment_id \<Rightarrow> sql_plain payment_id)
      \<and> (case wh_plan_name wh of None \<Rightarrow> True | Some pname \<Rightarrow> sql_plain pname))"

text \<open>
  The three ways a payment can end: nothing written; the transaction over without a trace
  because the user row is missing, by the foreign-key error of the insert where foreign
  keys are checked and by the roll back after the failed activation where they are not; or
  the completed purchase and the activated plan committed together.
\<close>

definition atomic_outcome ::
  "session \<Rightarrow> int \<Rightarrow> datetime \<Rightarrow> (error + bool) \<times> session \<Rightarrow> bool" where
  "atomic_outcome s user_id now out =
     (case out of (r, s') \<Rightarrow>
        s' = s
      \<or> (users (working s) user_id = None
          \<and> r = (if foreign_keys s then Inl IntegrityError else Inr False)
          \<and> committed s' = committed s \<and> working s' = committed s)
      \<or> (r = Inr True
          \<and> (\<exists>u p. users (working s) user_id = Some u
                \<and> status p = ''completed'' \<and> purchase_user_id p = user_id
                \<and> working s' = (working s)\<lparr>
                      users := (users (working s))(user_id \<mapsto>
                         u\<lparr>plan_id := Some (purchase_plan_id p),
                           plan_until := Some (now + timedelta_days 30)\<rparr>),
                      purchases := purchases (working s) @ [p]\<rparr>
                \<and> committed s' = working s')))"


text \<open>
  Two sessions differ only in \<^verbatim>\<open>banned\<close> flags when they agree once every flag is cleared.
\<close>

definition clear_banned :: "db \<Rightarrow> db" where
  "clear_banned d = d\<lparr>users := (\<lambda>i. map_option (\<lambda>u. u\<lparr>banned := False\<rparr>) (users d i))\<rparr>"

definition ignoring_banned :: "session \<Rightarrow> session" where
  "ignoring_banned s =
     s\<lparr>committed := clear_banned (committed s), working := clear_banned (working s)\<rparr>"

section \<open>A sample store\<close>

definition pro :: plan where
  "pro = \<lparr>plan_ident = 2, plan_name = ''Pro'', monthly_quota = 1500\<rparr>"

definition business :: plan where
  "business = \<lparr>plan_ident = 3, plan_name = ''Business'', monthly_quota = - 1\<rparr>"

text \<open>Noon of 3 November 2026.\<close>

definition noon :: datetime where
  "noon = 739922 * us_per_day + 43200000000"

text \<open>
  User 7 is on trial with two requests left; user 42 holds the Business plan for another
  thirty days and made five requests the day before.
\<close>

definition shop :: db where
  "shop =
     \<lparr>users = [7 \<mapsto> \<lparr>trial_left = 2, plan_id = None, plan_until = None, banned = False\<rparr>,
               42 \<mapsto> \<lparr>trial_left = 30, plan_id = Some 3,
                      plan_until = Some (noon + timedelta_days 30), banned = False\<rparr>],
      plans = [pro, business],
      purchases = [],
      usage = [\<lparr>usage_user_id = 42, usage_date = noon - timedelta_days 1, requests = 5,
                prompt_tokens = 0, completion_tokens = 0, total_tokens = 5\<rparr>]\<rparr>"

definition fresh_session :: "db \<Rightarrow> session" where
  "fresh_session d =
     \<lparr>committed = d, working = d, purchases_id_seq = 0, foreign_keys = True\<rparr>"

definition billing :: billing_service where
  "billing = \<lparr>trial_requests = 30\<rparr>"

text \<open>
  A stand-in for the keyed digest: the secret followed by the message. A statement that its
  value breaks is a syntax error here.
\<close>

definition gateway :: payment_service where
  "gateway =
     \<lparr>yoomoney_webhook_secret = ''whsec'',
      hmac_sha256_hexdigest = (\<lambda>k m. k @ m),
      json_dumps = (\<lambda>wh. (case wh_id wh of None \<Rightarrow> [] | Some i \<Rightarrow> i)
                          @ (case wh_status wh of None \<Rightarrow> [] | Some st \<Rightarrow> st)),
      broken_statement = (\<lambda>q s. (Inl ProgrammingError, s))\<rparr>"

definition pay_123 :: "string \<Rightarrow> webhook" where
  "pay_123 st =
     \<lparr>wh_id = Some ''pay_123'', wh_status = Some st, wh_user_id = Some 7,
      wh_plan_name = Some ''Pro'', wh_amount_value = Some (Number 799)\<rparr>"

section \<open>Quota views\<close>

lemma sum_list_requests_nonneg:
  "\<forall>r \<in> set rows. 0 \<le> requests r \<Longrightarrow> 0 \<le> sum_list (map requests (filter P rows))"
  by (induction rows) auto

text \<open>
  Whatever the usage history, an active plan whose quota is the sentinel \<open>-1\<close> leaves
  \<open>max 0 (-1 - used) = 0\<close> requests, so the subscriber is refused.
\<close>

lemma unlimited_plan_remaining_zero:
  assumes "users (working s) user_id = Some u"
    and "has_active_plan u now"
    and "user_plan (working s) u = Some p"
    and "monthly_quota p = - 1"
    and "\<forall>r \<in> set (usage (working s)). 0 \<le> requests r"
  shows "remaining (fst (get_user_quota self s user_id now)) = 0"
    and "fst (can_make_request self s user_id now) = False"
proof -
  have "0 \<le> sum_list (map requests
          (filter (\<lambda>r. usage_user_id r = user_id \<and> usage_date r \<ge> start_of_month now)
             (usage (working s))))"
    using assms(5) by (rule sum_list_requests_nonneg)
  then show "remaining (fst (get_user_quota self s user_id now)) = 0"
    using assms(1-4) by (simp add: get_user_quota_def Let_def)
  then show "fst (can_make_request self s user_id now) = False"
    by (simp add: can_make_request_def case_prod_beta)
qed

text \<open>
  C1. A user with an active, unexpired plan whose monthly quota is the unlimited sentinel
  \<open>-1\<close> should see \<open>remaining\<close> as a distinguished unlimited value and always be allowed a
  request. The code has no case for the sentinel: for user 42 of the sample store, the
  Business subscriber, \<^verbatim>\<open>get_user_quota\<close> reports the number 0 as \<open>remaining\<close>,
  \<^verbatim>\<open>can_make_request\<close> is false, and the chat endpoint answers 402.
\<close>

theorem unlimited_plan_is_refused:
  "q_monthly_quota (fst (get_user_quota billing (fresh_session shop) 42 noon)) = - 1
   \<and> is_active (fst (get_user_quota billing (fresh_session shop) 42 noon))
   \<and> used_this_month (fst (get_user_quota billing (fresh_session shop) 42 noon)) = 5
   \<and> remaining (fst (get_user_quota billing (fresh_session shop) 42 noon)) = 0
   \<and> fst (can_make_request billing (fresh_session shop) 42 noon) = False
   \<and> fst (send_message_gate billing (fresh_session shop) 42 noon)
       = Some (HTTPException 402 ''Insufficient quota. Please upgrade your plan.'')"
  by (simp add: send_message_gate_def can_make_request_def get_user_quota_def fresh_session_def
      shop_def has_active_plan_def truthy_int_def user_plan_def business_def pro_def Let_def
      billing_def timedelta_days_def noon_def us_per_day_def start_of_month_def date_of_def
      day_of_month_def days_before_month_def days_in_month_def)

text \<open>
  C8. For a user id with no row in \<^verbatim>\<open>users\<close>, \<^verbatim>\<open>get_user_quota\<close> returns the synthetic
  view: the full trial allotment, no plan, \<open>remaining\<close> equal to the allotment. It returns
  a value, not an error, and the session, hence every table, is left as it was.
\<close>

theorem get_user_quota_unknown_user:
  assumes "users (working s) user_id = None"
  shows "get_user_quota self s user_id now =
    (\<lparr>q_trial_left = trial_requests self, q_plan_name = None, q_plan_until = None,
      q_monthly_quota = 0, used_this_month = 0, remaining = trial_requests self,
      is_trial = True, is_active = True\<rparr>, s)"
  using assms by (simp add: get_user_quota_def)

theorem get_user_quota_unknown_user_witness:
  "users (working (fresh_session shop)) 8 = None
   \<and> get_user_quota billing (fresh_session shop) 8 noon =
       (\<lparr>q_trial_left = 30, q_plan_name = None, q_plan_until = None,
         q_monthly_quota = 0, used_this_month = 0, remaining = 30,
         is_trial = True, is_active = True\<rparr>, fresh_session shop)"
proof -
  have h: "users (working (fresh_session shop)) 8 = None"
    by (simp add: fresh_session_def shop_def)
  show ?thesis
    using h get_user_quota_unknown_user [OF h, of billing noon] by (simp add: billing_def)
qed

section \<open>Plan activation\<close>

text \<open>
  C7. \<^verbatim>\<open>activate_plan\<close> returns false exactly when the user row does not exist, and then
  changes nothing. Otherwise it sets the plan reference and
  \<open>plan_until = now + duration_days\<close>, and commits. A second activation does not add to the
  time that was left: it leaves the session that a single activation at the time of the
  second call would leave.
\<close>

theorem activate_plan_sets_window:
  "(fst (activate_plan s user_id pid duration_days now) = False
      \<longleftrightarrow> users (working s) user_id = None)
   \<and> (users (working s) user_id = None
        \<longrightarrow> snd (activate_plan s user_id pid duration_days now) = s)
   \<and> (\<forall>u. users (working s) user_id = Some u \<longrightarrow>
         working (snd (activate_plan s user_id pid duration_days now)) =
           (working s)\<lparr>users := (users (working s))(user_id \<mapsto>
               u\<lparr>plan_id := Some pid,
                 plan_until := Some (now + timedelta_days duration_days)\<rparr>)\<rparr>
         \<and> committed (snd (activate_plan s user_id pid duration_days now)) =
             working (snd (activate_plan s user_id pid duration_days now)))
   \<and> snd (activate_plan (snd (activate_plan s user_id pid duration_days now))
            user_id pid' duration_days' now')
       = snd (activate_plan s user_id pid' duration_days' now')"
  by (cases "users (working s) user_id") (simp_all add: activate_plan_def commit_def)

theorem activate_plan_sets_window_witness:
  "users (working (fresh_session shop)) 7
     = Some \<lparr>trial_left = 2, plan_id = None, plan_until = None, banned = False\<rparr>
   \<and> users (working (fresh_session shop)) 8 = None
   \<and> fst (activate_plan (fresh_session shop) 7 2 30 noon) = True
   \<and> users (working (snd (activate_plan (fresh_session shop) 7 2 30 noon))) 7
       = Some \<lparr>trial_left = 2, plan_id = Some 2,
               plan_until = Some (noon + timedelta_days 30), banned = False\<rparr>
   \<and> users (working (snd (activate_plan (snd (activate_plan (fresh_session shop) 7 2 30 noon))
                              7 2 30 (noon + timedelta_days 10)))) 7
       = Some \<lparr>trial_left = 2, plan_id = Some 2,
               plan_until = Some (noon + timedelta_days 40), banned = False\<rparr>
   \<and> activate_plan (fresh_session shop) 8 2 30 noon = (False, fresh_session shop)"
proof -
  have h7: "users (working (fresh_session shop)) 7
     = Some \<lparr>trial_left = 2, plan_id = None, plan_until = None, banned = False\<rparr>"
    by (simp add: fresh_session_def shop_def)
  have h8: "users (working (fresh_session shop)) 8 = None"
    by (simp add: fresh_session_def shop_def)
  have again: "noon + timedelta_days 10 + timedelta_days 30 = noon + timedelta_days 40"
    by (simp add: timedelta_days_def)
  show ?thesis
    using h7 h8 again
      activate_plan_sets_window [of "fresh_session shop" 7 2 30 noon 2 30 "noon + timedelta_days 10"]
      activate_plan_sets_window [of "fresh_session shop" 8 2 30 noon 2 30 noon]
    by (simp add: activate_plan_def commit_def)
qed

section \<open>Usage logging\<close>

lemma filter_map_bump:
  "filter (todays_row a b)
     (map (\<lambda>r. if todays_row a' b' r
                then r\<lparr>requests := requests r + 1, total_tokens := total_tokens r + k\<rparr>
                else r) xs)
   = map (\<lambda>r. if todays_row a' b' r
                then r\<lparr>requests := requests r + 1, total_tokens := total_tokens r + k\<rparr>
                else r) (filter (todays_row a b) xs)"
  by (induction xs) (auto simp: todays_row_def)













section \<open>Trial consumption\<close>

lemma log_usage_ok:
  assumes "usage_keyed (working s)"
  shows "\<exists>s'. log_usage s user_id tokens now = (Inr (), s')
     \<and> users (working s') = users (working s)
     \<and> plans (working s') = plans (working s)
     \<and> purchases (working s') = purchases (working s)
     \<and> purchases_id_seq s' = purchases_id_seq s
     \<and> committed s' = working s'
     \<and> usage_keyed (working s')
     \<and> requests_on (working s') user_id (date_of now)
         = requests_on (working s) user_id (date_of now) + 1"
proof -
  let ?rows = "filter (todays_row user_id (date_of now)) (usage (working s))"
  have le: "length ?rows \<le> 1" using assms by (simp add: usage_keyed_def)
  show ?thesis
  proof (cases ?rows)
    case Nil
    then have "scalar_one_or_none ?rows = Inr None" by simp
    moreover have "\<And>a b. length (filter (todays_row a b) (usage (working s))) \<le> 1"
      using assms by (simp add: usage_keyed_def)
    ultimately show ?thesis using Nil
      apply (simp add: log_usage_def Let_def commit_def usage_keyed_def requests_on_def)
      apply (auto simp: todays_row_def)
      done
  next
    case (Cons r rs)
    with le have rs: "rs = []" by simp
    with Cons have one: "?rows = [r]" by simp
    then have sc: "scalar_one_or_none ?rows = Inr (Some r)" by simp
    have r: "todays_row user_id (date_of now) r"
    proof -
      have "r \<in> set ?rows" using one by simp
      then show ?thesis by simp
    qed
    show ?thesis using sc one r assms
      by (simp add: log_usage_def Let_def commit_def usage_keyed_def requests_on_def filter_map_bump)
  qed
qed


lemma has_active_plan_trial_left [simp]:
  "has_active_plan (u\<lparr>trial_left := n\<rparr>) now = has_active_plan u now"
  by (simp add: has_active_plan_def)

lemma consume_request_trial_step:
  assumes u: "users (working s) user_id = Some u"
    and na: "\<not> has_active_plan u now"
    and pos: "0 < trial_left u"
    and keyed: "usage_keyed (working s)"
  shows "\<exists>s'. consume_request s user_id tokens now = (Inr True, s')
     \<and> users (working s') = (users (working s))(user_id \<mapsto> u\<lparr>trial_left := trial_left u - 1\<rparr>)
     \<and> usage_keyed (working s')
     \<and> committed s' = working s'
     \<and> requests_on (working s') user_id (date_of now)
         = requests_on (working s) user_id (date_of now) + 1"
proof -
  let ?s1 = "s\<lparr>working := (working s)\<lparr>users := (users (working s))
                 (user_id \<mapsto> u\<lparr>trial_left := trial_left u - 1\<rparr>)\<rparr>\<rparr>"
  have k1: "usage_keyed (working ?s1)" using keyed by (simp add: usage_keyed_def)
  from log_usage_ok [OF k1, of user_id tokens now]
  obtain s' where s': "log_usage ?s1 user_id tokens now = (Inr (), s')"
    "users (working s') = users (working ?s1)"
    "committed s' = working s'" "usage_keyed (working s')"
    "requests_on (working s') user_id (date_of now)
       = requests_on (working ?s1) user_id (date_of now) + 1"
    by blast
  have "consume_request s user_id tokens now = (Inr True, commit s')"
    using u na pos s'(1) by (simp add: consume_request_def)
  moreover have "requests_on (working ?s1) user_id (date_of now)
      = requests_on (working s) user_id (date_of now)"
    by (simp add: requests_on_def)
  ultimately show ?thesis using s' by (simp add: commit_def)
qed

lemma consume_request_exhausted:
  assumes "users (working s) user_id = Some u" "\<not> has_active_plan u now" "trial_left u \<le> 0"
  shows "consume_request s user_id tokens now = (Inr False, s)"
  using assms by (simp add: consume_request_def)

lemma consume_requests_trial:
  assumes "users (working s) user_id = Some u"
    and "trial_left u = int (length calls)"
    and "\<forall>c \<in> set calls. \<not> has_active_plan u (snd c)"
    and "usage_keyed (working s)"
  shows "length (consume_requests s user_id calls) = length calls
    \<and> (\<forall>k < length calls.
          fst (consume_requests s user_id calls ! k) = Inr True
        \<and> trial_left_of ((s # map snd (consume_requests s user_id calls)) ! Suc k) user_id
            = Some (int (length calls) - int k - 1)
        \<and> requests_on (working ((s # map snd (consume_requests s user_id calls)) ! Suc k))
              user_id (date_of (snd (calls ! k)))
            = requests_on (working ((s # map snd (consume_requests s user_id calls)) ! k))
                user_id (date_of (snd (calls ! k))) + 1)
    \<and> users (working (last (s # map snd (consume_requests s user_id calls)))) user_id
         = Some (u\<lparr>trial_left := 0\<rparr>)
    \<and> usage_keyed (working (last (s # map snd (consume_requests s user_id calls))))"
  using assms
proof (induction calls arbitrary: s u)
  case Nil
  then show ?case by simp
next
  case (Cons c calls)
  obtain tokens now where c: "c = (tokens, now)" by (cases c)
  have na: "\<not> has_active_plan u now" using Cons.prems(3) c by simp
  have pos: "0 < trial_left u" using Cons.prems(2) by simp
  from consume_request_trial_step [OF Cons.prems(1) na pos Cons.prems(4), of tokens]
  obtain s' where s': "consume_request s user_id tokens now = (Inr True, s')"
    "users (working s') = (users (working s))(user_id \<mapsto> u\<lparr>trial_left := trial_left u - 1\<rparr>)"
    "usage_keyed (working s')"
    "requests_on (working s') user_id (date_of now)
       = requests_on (working s) user_id (date_of now) + 1"
    by blast
  let ?u' = "u\<lparr>trial_left := trial_left u - 1\<rparr>"
  have u': "users (working s') user_id = Some ?u'" using s'(2) by simp
  have tl: "trial_left ?u' = int (length calls)" using Cons.prems(2) by simp
  have na': "\<forall>c \<in> set calls. \<not> has_active_plan ?u' (snd c)" using Cons.prems(3) by simp
  note IH = Cons.IH [OF u' tl na' s'(3)]
  let ?tr = "consume_requests s' user_id calls"
  have run: "consume_requests s user_id (c # calls) = (Inr True, s') # ?tr"
    using c s'(1) by simp
  have len: "length (consume_requests s user_id (c # calls)) = length (c # calls)"
    using IH run by simp
  have steps: "\<forall>k < length (c # calls).
          fst (consume_requests s user_id (c # calls) ! k) = Inr True
        \<and> trial_left_of ((s # map snd (consume_requests s user_id (c # calls))) ! Suc k) user_id
            = Some (int (length (c # calls)) - int k - 1)
        \<and> requests_on (working ((s # map snd (consume_requests s user_id (c # calls))) ! Suc k))
              user_id (date_of (snd ((c # calls) ! k)))
            = requests_on (working ((s # map snd (consume_requests s user_id (c # calls))) ! k))
                user_id (date_of (snd ((c # calls) ! k))) + 1"
  proof (intro allI impI)
    fix k assume k: "k < length (c # calls)"
    show "fst (consume_requests s user_id (c # calls) ! k) = Inr True
        \<and> trial_left_of ((s # map snd (consume_requests s user_id (c # calls))) ! Suc k) user_id
            = Some (int (length (c # calls)) - int k - 1)
        \<and> requests_on (working ((s # map snd (consume_requests s user_id (c # calls))) ! Suc k))
              user_id (date_of (snd ((c # calls) ! k)))
            = requests_on (working ((s # map snd (consume_requests s user_id (c # calls))) ! k))
                user_id (date_of (snd ((c # calls) ! k))) + 1"
    proof (cases k)
      case 0
      then show ?thesis using run u' tl s'(4) c by (simp add: trial_left_of_def)
    next
      case (Suc j)
      then have j: "j < length calls" using k by simp
      from IH j have
        "fst (?tr ! j) = Inr True
        \<and> trial_left_of ((s' # map snd ?tr) ! Suc j) user_id = Some (int (length calls) - int j - 1)
        \<and> requests_on (working ((s' # map snd ?tr) ! Suc j)) user_id (date_of (snd (calls ! j)))
            = requests_on (working ((s' # map snd ?tr) ! j)) user_id (date_of (snd (calls ! j))) + 1"
        by blast
      then show ?thesis using run Suc by simp
    qed
  qed
  have fin: "users (working (last (s # map snd (consume_requests s user_id (c # calls))))) user_id
         = Some (u\<lparr>trial_left := 0\<rparr>)
    \<and> usage_keyed (working (last (s # map snd (consume_requests s user_id (c # calls)))))"
    using IH run by simp
  show ?case using len steps fin by blast
qed



text \<open>
  C3. A user has no active plan and \<open>trial_left = N\<close>, and the store keeps one usage row per
  user and day. Then \<open>N\<close> calls of \<^verbatim>\<open>consume_request\<close> in a row each return true, each
  lowers \<open>trial_left\<close> by exactly one, from \<open>N - k\<close> to \<open>N - k - 1\<close> at call \<open>k\<close>, and each adds
  one request to the usage of its day. One more call returns false and leaves the session,
  with \<open>trial_left = 0\<close> and its usage rows, exactly as it was.
\<close>

theorem trial_requests_consumed:
  assumes user: "users (working s) user_id = Some u"
    and n: "trial_left u = int (length calls)"
    and trial: "\<forall>c \<in> set calls. \<not> has_active_plan u (snd c)"
    and trial': "\<not> has_active_plan u now'"
    and keyed: "usage_keyed (working s)"
  shows
    "(\<forall>k < length calls.
        fst (consume_requests s user_id calls ! k) = Inr True
      \<and> trial_left_of ((s # map snd (consume_requests s user_id calls)) ! k) user_id
          = Some (int (length calls) - int k)
      \<and> trial_left_of ((s # map snd (consume_requests s user_id calls)) ! Suc k) user_id
          = Some (int (length calls) - int k - 1)
      \<and> requests_on (working ((s # map snd (consume_requests s user_id calls)) ! Suc k))
            user_id (date_of (snd (calls ! k)))
          = requests_on (working ((s # map snd (consume_requests s user_id calls)) ! k))
              user_id (date_of (snd (calls ! k))) + 1)
   \<and> trial_left_of (last (s # map snd (consume_requests s user_id calls))) user_id = Some 0
   \<and> consume_request (last (s # map snd (consume_requests s user_id calls))) user_id tokens' now'
       = (Inr False, last (s # map snd (consume_requests s user_id calls)))"
proof -
  define states where "states = s # map snd (consume_requests s user_id calls)"
  note T = consume_requests_trial [OF user n trial keyed]
  have step: "fst (consume_requests s user_id calls ! k) = Inr True
      \<and> trial_left_of (states ! Suc k) user_id = Some (int (length calls) - int k - 1)
      \<and> requests_on (working (states ! Suc k)) user_id (date_of (snd (calls ! k)))
          = requests_on (working (states ! k)) user_id (date_of (snd (calls ! k))) + 1"
    if "k < length calls" for k
    using T that unfolding states_def by blast
  have before: "trial_left_of (states ! k) user_id = Some (int (length calls) - int k)"
    if k: "k < length calls" for k
  proof (cases k)
    case 0
    then show ?thesis using user n by (simp add: states_def trial_left_of_def)
  next
    case (Suc j)
    then have "j < length calls" using k by simp
    from step [OF this] show ?thesis using Suc by simp
  qed
  have fin: "users (working (last states)) user_id = Some (u\<lparr>trial_left := 0\<rparr>)"
    using T unfolding states_def by blast
  have zero: "trial_left_of (last states) user_id = Some 0"
    using fin by (simp add: trial_left_of_def)
  have stop: "consume_request (last states) user_id tokens' now' = (Inr False, last states)"
    using fin trial' by (intro consume_request_exhausted [of _ _ "u\<lparr>trial_left := 0\<rparr>"]) simp_all
  have all: "\<forall>k < length calls.
        fst (consume_requests s user_id calls ! k) = Inr True
      \<and> trial_left_of (states ! k) user_id = Some (int (length calls) - int k)
      \<and> trial_left_of (states ! Suc k) user_id = Some (int (length calls) - int k - 1)
      \<and> requests_on (working (states ! Suc k)) user_id (date_of (snd (calls ! k)))
          = requests_on (working (states ! k)) user_id (date_of (snd (calls ! k))) + 1"
    using step before by blast
  show ?thesis
    unfolding states_def [symmetric]
    by (intro conjI all zero stop)
qed


theorem trial_requests_consumed_witness:
  "users (working (fresh_session shop)) 7
     = Some \<lparr>trial_left = 2, plan_id = None, plan_until = None, banned = False\<rparr>
   \<and> usage_keyed (working (fresh_session shop))
   \<and> fst (consume_requests (fresh_session shop) 7 [(1, noon), (1, noon + 1)] ! 0) = Inr True
   \<and> fst (consume_requests (fresh_session shop) 7 [(1, noon), (1, noon + 1)] ! 1) = Inr True
   \<and> trial_left_of (last (fresh_session shop #
        map snd (consume_requests (fresh_session shop) 7 [(1, noon), (1, noon + 1)]))) 7 = Some 0
   \<and> fst (consume_request (last (fresh_session shop #
        map snd (consume_requests (fresh_session shop) 7 [(1, noon), (1, noon + 1)])))
        7 1 (noon + 2)) = Inr False"
proof -
  let ?u = "\<lparr>trial_left = 2, plan_id = None, plan_until = None, banned = False\<rparr>"
  have h1: "users (working (fresh_session shop)) 7 = Some ?u"
    by (simp add: fresh_session_def shop_def)
  have h2: "trial_left ?u = int (length [(1::int, noon), (1, noon + 1)])" by simp
  have h3: "\<forall>c \<in> set [(1::int, noon), (1, noon + 1)]. \<not> has_active_plan ?u (snd c)"
    by (simp add: has_active_plan_def truthy_int_def)
  have h4: "\<not> has_active_plan ?u (noon + 2)"
    by (simp add: has_active_plan_def truthy_int_def)
  have h5: "usage_keyed (working (fresh_session shop))"
    by (simp add: usage_keyed_def fresh_session_def shop_def)
  note T = trial_requests_consumed [OF h1 h2 h3 h4 h5, of 1]
  have k0: "fst (consume_requests (fresh_session shop) 7 [(1, noon), (1, noon + 1)] ! 0) = Inr True"
    using T [THEN conjunct1, rule_format, of 0] by (simp del: consume_requests.simps)
  have k1: "fst (consume_requests (fresh_session shop) 7 [(1, noon), (1, noon + 1)] ! 1) = Inr True"
    using T [THEN conjunct1, rule_format, of 1] by (simp del: consume_requests.simps)
  show ?thesis
    using h1 h5 k0 k1 T [THEN conjunct2] by (simp del: consume_requests.simps)
qed


section \<open>History truncation\<close>










section \<open>The banned flag\<close>

lemma log_usage_ignoring_banned:
  "log_usage (ignoring_banned s) user_id tokens now =
     (fst (log_usage s user_id tokens now), ignoring_banned (snd (log_usage s user_id tokens now)))"
  by (simp add: log_usage_def ignoring_banned_def clear_banned_def commit_def Let_def
      split: sum.splits option.splits)

lemma get_user_quota_ignoring_banned:
  "get_user_quota self (ignoring_banned s) user_id now =
     (fst (get_user_quota self s user_id now), ignoring_banned (snd (get_user_quota self s user_id now)))"
  by (simp add: get_user_quota_def ignoring_banned_def clear_banned_def Let_def
        has_active_plan_def user_plan_def split: option.splits)

lemma can_make_request_ignoring_banned:
  "can_make_request self (ignoring_banned s) user_id now =
     (fst (can_make_request self s user_id now), ignoring_banned (snd (can_make_request self s user_id now)))"
  by (simp add: can_make_request_def get_user_quota_ignoring_banned split: prod.splits)

lemma send_message_gate_ignoring_banned:
  "send_message_gate self (ignoring_banned s) user_id now =
     (fst (send_message_gate self s user_id now), ignoring_banned (snd (send_message_gate self s user_id now)))"
  by (simp add: send_message_gate_def can_make_request_ignoring_banned split: prod.splits)

lemma consume_request_ignoring_banned:
  "consume_request (ignoring_banned s) user_id tokens now =
     (fst (consume_request s user_id tokens now), ignoring_banned (snd (consume_request s user_id tokens now)))"
proof (cases "users (working s) user_id")
  case None
  then show ?thesis by (simp add: consume_request_def ignoring_banned_def clear_banned_def)
next
  case (Some u)
  let ?s1 = "s\<lparr>working := (working s)\<lparr>users := (users (working s))
                 (user_id \<mapsto> u\<lparr>trial_left := trial_left u - 1\<rparr>)\<rparr>\<rparr>"
  have u': "users (working (ignoring_banned s)) user_id = Some (u\<lparr>banned := False\<rparr>)"
    using Some by (simp add: ignoring_banned_def clear_banned_def)
  have act: "has_active_plan (u\<lparr>banned := False\<rparr>) now = has_active_plan u now"
    by (simp add: has_active_plan_def)
  have s1: "(ignoring_banned s)\<lparr>working := (working (ignoring_banned s))\<lparr>users :=
               (users (working (ignoring_banned s)))
                 (user_id \<mapsto> u\<lparr>banned := False, trial_left := trial_left u - 1\<rparr>)\<rparr>\<rparr>
            = ignoring_banned ?s1"
    by (simp add: ignoring_banned_def clear_banned_def fun_eq_iff)
  have cm: "commit (ignoring_banned x) = ignoring_banned (commit x)" for x
    by (simp add: commit_def ignoring_banned_def)
  show ?thesis
    using Some u' act
    by (simp add: consume_request_def s1 log_usage_ignoring_banned cm split: prod.splits sum.splits)
qed


lemma log_usage_users:
  "users (working (snd (log_usage s user_id tokens now))) = users (working s)"
  by (simp add: log_usage_def Let_def commit_def split: sum.splits option.splits)

lemma consume_request_keeps_banned:
  "map_option banned (users (working (snd (consume_request s user_id tokens now))) i)
     = map_option banned (users (working s) i)"
proof (cases "users (working s) user_id")
  case None
  then show ?thesis by (simp add: consume_request_def)
next
  case (Some u)
  let ?s1 = "s\<lparr>working := (working s)\<lparr>users := (users (working s))
                 (user_id \<mapsto> u\<lparr>trial_left := trial_left u - 1\<rparr>)\<rparr>\<rparr>"
  obtain r s' where a: "log_usage s user_id tokens now = (r, s')"
    by (cases "log_usage s user_id tokens now")
  obtain r1 s1' where b: "log_usage ?s1 user_id tokens now = (r1, s1')"
    by (cases "log_usage ?s1 user_id tokens now")
  have ua: "users (working s') = users (working s)"
    using log_usage_users [of s user_id tokens now] a by simp
  have ub: "users (working s1') = (users (working s))
                 (user_id \<mapsto> u\<lparr>trial_left := trial_left u - 1\<rparr>)"
    using log_usage_users [of ?s1 user_id tokens now] b by simp
  show ?thesis
    using Some a b ua ub
    by (cases r; cases r1) (simp_all add: consume_request_def commit_def)
qed

text \<open>
  C10. Two sessions that differ only in \<^verbatim>\<open>banned\<close> flags get the same result from
  \<^verbatim>\<open>get_user_quota\<close>, \<^verbatim>\<open>can_make_request\<close>, \<^verbatim>\<open>consume_request\<close> and the quota gate of the
  chat endpoint, and the sessions they are left with again differ only in those flags,
  which \<^verbatim>\<open>consume_request\<close> does not touch. A banned user is authorized, and consumes
  quota, exactly as an unbanned one.
\<close>

theorem banned_flag_is_not_read:
  assumes "ignoring_banned s = ignoring_banned s'"
  shows "fst (get_user_quota self s user_id now) = fst (get_user_quota self s' user_id now)
    \<and> ignoring_banned (snd (get_user_quota self s user_id now))
        = ignoring_banned (snd (get_user_quota self s' user_id now))
    \<and> fst (can_make_request self s user_id now) = fst (can_make_request self s' user_id now)
    \<and> ignoring_banned (snd (can_make_request self s user_id now))
        = ignoring_banned (snd (can_make_request self s' user_id now))
    \<and> fst (send_message_gate self s user_id now) = fst (send_message_gate self s' user_id now)
    \<and> ignoring_banned (snd (send_message_gate self s user_id now))
        = ignoring_banned (snd (send_message_gate self s' user_id now))
    \<and> fst (consume_request s user_id tokens now) = fst (consume_request s' user_id tokens now)
    \<and> ignoring_banned (snd (consume_request s user_id tokens now))
        = ignoring_banned (snd (consume_request s' user_id tokens now))
    \<and> (\<forall>i. map_option banned (users (working (snd (consume_request s user_id tokens now))) i)
             = map_option banned (users (working s) i))"
proof -
  have q: "get_user_quota self (ignoring_banned s) user_id now
         = get_user_quota self (ignoring_banned s') user_id now"
    and c: "can_make_request self (ignoring_banned s) user_id now
         = can_make_request self (ignoring_banned s') user_id now"
    and g: "send_message_gate self (ignoring_banned s) user_id now
         = send_message_gate self (ignoring_banned s') user_id now"
    and r: "consume_request (ignoring_banned s) user_id tokens now
         = consume_request (ignoring_banned s') user_id tokens now"
    using assms by simp_all
  show ?thesis
    using q c g r consume_request_keeps_banned [of s user_id tokens now]
    by (simp add: get_user_quota_ignoring_banned can_make_request_ignoring_banned
        send_message_gate_ignoring_banned consume_request_ignoring_banned)
qed

theorem banned_flag_is_not_read_witness:
  "ignoring_banned (fresh_session shop)
     = ignoring_banned (fresh_session (shop\<lparr>users := (users shop)
          (7 \<mapsto> \<lparr>trial_left = 2, plan_id = None, plan_until = None, banned = True\<rparr>)\<rparr>))
   \<and> fst (can_make_request billing (fresh_session (shop\<lparr>users := (users shop)
          (7 \<mapsto> \<lparr>trial_left = 2, plan_id = None, plan_until = None, banned = True\<rparr>)\<rparr>)) 7 noon)
       = True
   \<and> fst (consume_request (fresh_session (shop\<lparr>users := (users shop)
          (7 \<mapsto> \<lparr>trial_left = 2, plan_id = None, plan_until = None, banned = True\<rparr>)\<rparr>)) 7 1 noon)
       = Inr True"
proof -
  let ?banned = "fresh_session (shop\<lparr>users := (users shop)
          (7 \<mapsto> \<lparr>trial_left = 2, plan_id = None, plan_until = None, banned = True\<rparr>)\<rparr>)"
  have h: "ignoring_banned (fresh_session shop) = ignoring_banned ?banned"
    by (simp add: ignoring_banned_def clear_banned_def fresh_session_def shop_def fun_eq_iff)
  have c: "fst (can_make_request billing (fresh_session shop) 7 noon) = True"
    by (simp add: can_make_request_def get_user_quota_def fresh_session_def shop_def
        has_active_plan_def truthy_int_def user_plan_def Let_def)
  have r: "fst (consume_request (fresh_session shop) 7 1 noon) = Inr True"
    by (simp add: consume_request_def log_usage_def fresh_session_def shop_def
        has_active_plan_def truthy_int_def todays_row_def Let_def)
  show ?thesis
    using h c r banned_flag_is_not_read [OF h, of billing 7 noon 1] by simp
qed

section \<open>Payment reconciliation\<close>

lemma execute_scalar_plain:
  "sql_plain k \<Longrightarrow> execute_scalar self s (PurchaseByIdempotencyKey k) =
     (scalar_one_or_none (map purchase_id
        (filter (\<lambda>p. idempotency_key (purchase_payload p) = Some k) (purchases (working s)))), s)"
  "sql_plain k \<Longrightarrow> execute_scalar self s (PurchaseByYoomoneyPaymentId k) =
     (scalar_one_or_none (map purchase_id
        (filter (\<lambda>p. yoomoney_payment_id (purchase_payload p) = Some k) (purchases (working s)))), s)"
  "sql_plain n \<Longrightarrow> execute_scalar self s (PlanByName n) =
     (scalar_one_or_none (map plan_ident (filter (\<lambda>p. plan_name p = n) (plans (working s)))), s)"
  by (simp_all add: execute_scalar_def)

lemma scalar_one_or_none_Some:
  "scalar_one_or_none xs = Inr (Some x) \<Longrightarrow> x \<in> set xs"
  by (cases xs rule: scalar_one_or_none.cases) auto

lemma record_and_activate_eq:
  "record_and_activate s p user_id pid now =
     (if foreign_keys s \<and> \<not> references_exist (working s) p
      then (Inl IntegrityError,
            \<lparr>committed = committed s, working = committed s,
             purchases_id_seq = Suc (purchases_id_seq s), foreign_keys = foreign_keys s\<rparr>)
      else
        (case users (working s) user_id of
           None \<Rightarrow>
             (Inr False, \<lparr>committed = committed s, working = committed s,
                          purchases_id_seq = Suc (purchases_id_seq s),
                          foreign_keys = foreign_keys s\<rparr>)
         | Some u \<Rightarrow>
             (Inr True,
              \<lparr>committed = (working s)\<lparr>
                   users := (users (working s))(user_id \<mapsto>
                      u\<lparr>plan_id := Some pid, plan_until := Some (now + timedelta_days 30)\<rparr>),
                   purchases := purchases (working s) @
                      [p\<lparr>purchase_id := int (Suc (purchases_id_seq s))\<rparr>]\<rparr>,
               working = (working s)\<lparr>
                   users := (users (working s))(user_id \<mapsto>
                      u\<lparr>plan_id := Some pid, plan_until := Some (now + timedelta_days 30)\<rparr>),
                   purchases := purchases (working s) @
                      [p\<lparr>purchase_id := int (Suc (purchases_id_seq s))\<rparr>]\<rparr>,
               purchases_id_seq = Suc (purchases_id_seq s),
               foreign_keys = foreign_keys s\<rparr>)))"
  by (simp add: record_and_activate_def activate_plan_def add_purchase_def commit_def rollback_def
      split: option.splits)

lemma stars_purchase_simps [simp]:
  "status (stars_purchase user_id pid pname charge_id amnt now) = ''completed''"
  "purchase_user_id (stars_purchase user_id pid pname charge_id amnt now) = user_id"
  "purchase_plan_id (stars_purchase user_id pid pname charge_id amnt now) = pid"
  "idempotency_key (purchase_payload (stars_purchase user_id pid pname charge_id amnt now))
     = Some (stars_idempotency_key user_id pname charge_id)"
  "yoomoney_payment_id (purchase_payload (stars_purchase user_id pid pname charge_id amnt now)) = None"
  by (simp_all add: stars_purchase_def)

lemma yoomoney_purchase_simps [simp]:
  "status (yoomoney_purchase user_id pid payment_id pname wh a now) = ''completed''"
  "purchase_user_id (yoomoney_purchase user_id pid payment_id pname wh a now) = user_id"
  "purchase_plan_id (yoomoney_purchase user_id pid payment_id pname wh a now) = pid"
  "idempotency_key (purchase_payload (yoomoney_purchase user_id pid payment_id pname wh a now)) = None"
  "yoomoney_payment_id (purchase_payload (yoomoney_purchase user_id pid payment_id pname wh a now))
     = Some payment_id"
  by (simp_all add: yoomoney_purchase_def)

lemma process_stars_payment_plain:
  assumes "sql_plain (stars_idempotency_key user_id pname charge_id)" "sql_plain pname"
  shows "process_stars_payment self s user_id pname charge_id amnt now =
     (case scalar_one_or_none (map purchase_id
             (filter (\<lambda>p. idempotency_key (purchase_payload p)
                            = Some (stars_idempotency_key user_id pname charge_id))
                (purchases (working s)))) of
        Inl e \<Rightarrow> (Inl e, s)
      | Inr existing_purchase \<Rightarrow>
          if truthy_int existing_purchase then (Inr True, s)
          else
            (case scalar_one_or_none (map plan_ident
                    (filter (\<lambda>p. plan_name p = pname) (plans (working s)))) of
               Inl e \<Rightarrow> (Inl e, s)
             | Inr None \<Rightarrow> (Inr False, s)
             | Inr (Some pid) \<Rightarrow>
                 if pid = 0 then (Inr False, s)
                 else record_and_activate s
                        (stars_purchase user_id pid pname charge_id amnt now) user_id pid now))"
  using assms
  by (simp add: process_stars_payment_def Let_def execute_scalar_plain
      split: sum.splits option.splits)

lemma process_stars_payment_cases:
  assumes "sql_plain (stars_idempotency_key user_id pname charge_id)" "sql_plain pname"
  shows "snd (process_stars_payment self s user_id pname charge_id amnt now) = s
   \<or> (\<exists>pid. pid \<in> set (map plan_ident (plans (working s)))
         \<and> (\<exists>e. scalar_one_or_none (map purchase_id
                (filter (\<lambda>p. idempotency_key (purchase_payload p)
                               = Some (stars_idempotency_key user_id pname charge_id))
                   (purchases (working s)))) = Inr e \<and> \<not> truthy_int e)
         \<and> process_stars_payment self s user_id pname charge_id amnt now
             = record_and_activate s (stars_purchase user_id pid pname charge_id amnt now)
                 user_id pid now)"
proof -
  let ?dup = "scalar_one_or_none (map purchase_id
                (filter (\<lambda>p. idempotency_key (purchase_payload p)
                               = Some (stars_idempotency_key user_id pname charge_id))
                   (purchases (working s))))"
  let ?plan = "scalar_one_or_none (map plan_ident
                    (filter (\<lambda>p. plan_name p = pname) (plans (working s))))"
  note P = process_stars_payment_plain [OF assms, of self s amnt now]
  show ?thesis
  proof (cases ?dup)
    case (Inl e)
    then show ?thesis using P by simp
  next
    case (Inr existing)
    show ?thesis
    proof (cases "truthy_int existing")
      case True
      then show ?thesis using P Inr by simp
    next
      case False
      show ?thesis
      proof (cases ?plan)
        case (Inl e)
        then show ?thesis using P Inr False by simp
      next
        case plan: (Inr found)
        show ?thesis
        proof (cases found)
          case None
          then show ?thesis using P Inr False plan by simp
        next
          case (Some pid)
          show ?thesis
          proof (cases "pid = 0")
            case True
            then show ?thesis using P Inr False plan Some by simp
          next
            case nz: False
            have "pid \<in> set (map plan_ident (filter (\<lambda>p. plan_name p = pname) (plans (working s))))"
              using plan Some by (intro scalar_one_or_none_Some) simp
            then have "pid \<in> set (map plan_ident (plans (working s)))" by auto
            moreover have "process_stars_payment self s user_id pname charge_id amnt now
               = record_and_activate s (stars_purchase user_id pid pname charge_id amnt now)
                   user_id pid now"
              using P Inr False plan Some nz by simp
            ultimately show ?thesis using Inr False by blast
          qed
        qed
      qed
    qed
  qed
qed

lemma yoomoney_check_plain:
  assumes "wh_id wh = Some payment_id" "wh_user_id wh = Some user_id"
    and "wh_plan_name wh = Some pname"
    and "sql_plain payment_id" "sql_plain pname"
    and "event_accepted self (GatewayWebhook wh signature now)"
  shows "yoomoney_check self s wh signature =
     (case scalar_one_or_none (map purchase_id
             (filter (\<lambda>p. yoomoney_payment_id (purchase_payload p) = Some payment_id)
                (purchases (working s)))) of
        Inl e \<Rightarrow> (Inl e, s)
      | Inr existing_purchase \<Rightarrow>
          if truthy_int existing_purchase then (Inr (Return True), s)
          else
            (case scalar_one_or_none (map plan_ident
                    (filter (\<lambda>p. plan_name p = pname) (plans (working s)))) of
               Inl e \<Rightarrow> (Inl e, s)
             | Inr None \<Rightarrow> (Inr (Return False), s)
             | Inr (Some pid) \<Rightarrow>
                 if pid = 0 then (Inr (Return False), s)
                 else (Inr (Proceed user_id pid payment_id pname), s)))"
  using assms
  by (simp add: yoomoney_check_def execute_scalar_plain split: sum.splits option.splits)

lemma yoomoney_check_rejected:
  assumes "\<not> event_accepted self (GatewayWebhook wh signature now)"
  shows "yoomoney_check self s wh signature = (Inr (Return False), s)"
  using assms by (simp add: yoomoney_check_def)

lemma yoomoney_check_cases:
  assumes "event_plain (GatewayWebhook wh signature now)"
  shows "snd (yoomoney_check self s wh signature) = s
    \<and> ((\<exists>e. fst (yoomoney_check self s wh signature) = Inl e)
       \<or> (\<exists>b. fst (yoomoney_check self s wh signature) = Inr (Return b))
       \<or> (\<exists>pid user_id payment_id pname.
             fst (yoomoney_check self s wh signature) = Inr (Proceed user_id pid payment_id pname)
           \<and> wh_user_id wh = Some user_id \<and> wh_id wh = Some payment_id
           \<and> pid \<in> set (map plan_ident (plans (working s)))
           \<and> event_accepted self (GatewayWebhook wh signature now)
           \<and> (\<exists>e. scalar_one_or_none (map purchase_id
                  (filter (\<lambda>p. yoomoney_payment_id (purchase_payload p) = Some payment_id)
                     (purchases (working s)))) = Inr e \<and> \<not> truthy_int e)))"
proof (cases "event_accepted self (GatewayWebhook wh signature now)")
  case False
  then have "yoomoney_check self s wh signature = (Inr (Return False), s)"
    by (rule yoomoney_check_rejected)
  then show ?thesis by auto
next
  case True
  then obtain payment_id user_id pname where
    w: "wh_id wh = Some payment_id" "wh_user_id wh = Some user_id" "wh_plan_name wh = Some pname"
    by (auto simp: truthy_int_def truthy_str_def split: option.splits)
  have pl: "sql_plain payment_id" "sql_plain pname" using assms w by simp_all
  let ?dup = "scalar_one_or_none (map purchase_id
             (filter (\<lambda>p. yoomoney_payment_id (purchase_payload p) = Some payment_id)
                (purchases (working s))))"
  let ?plan = "scalar_one_or_none (map plan_ident
                    (filter (\<lambda>p. plan_name p = pname) (plans (working s))))"
  note P = yoomoney_check_plain [OF w pl True, of s]
  show ?thesis
  proof (cases ?dup)
    case (Inl e)
    then show ?thesis using P by auto
  next
    case (Inr existing)
    show ?thesis
    proof (cases "truthy_int existing")
      case True
      then show ?thesis using P Inr by auto
    next
      case False
      show ?thesis
      proof (cases ?plan)
        case (Inl e)
        then show ?thesis using P Inr False by auto
      next
        case plan: (Inr found)
        show ?thesis
        proof (cases found)
          case None
          then show ?thesis using P Inr False plan by auto
        next
          case (Some pid)
          show ?thesis
          proof (cases "pid = 0")
            case True
            then show ?thesis using P Inr False plan Some by auto
          next
            case nz: False
            have "pid \<in> set (map plan_ident (filter (\<lambda>p. plan_name p = pname) (plans (working s))))"
              using plan Some by (intro scalar_one_or_none_Some) simp
            then have "pid \<in> set (map plan_ident (plans (working s)))" by auto
            moreover have "yoomoney_check self s wh signature
                = (Inr (Proceed user_id pid payment_id pname), s)"
              using P Inr False plan Some nz by simp
            ultimately show ?thesis using Inr False w \<open>event_accepted self (GatewayWebhook wh signature now)\<close>
              by auto
          qed
        qed
      qed
    qed
  qed
qed

lemma process_yoomoney_webhook_cases:
  assumes "event_plain (GatewayWebhook wh signature now)"
  shows "snd (process_yoomoney_webhook self s wh signature now) = s
   \<or> (\<exists>pid user_id payment_id pname amnt.
         wh_user_id wh = Some user_id \<and> wh_id wh = Some payment_id
         \<and> pid \<in> set (map plan_ident (plans (working s)))
         \<and> event_accepted self (GatewayWebhook wh signature now)
         \<and> (\<exists>e. scalar_one_or_none (map purchase_id
                (filter (\<lambda>p. yoomoney_payment_id (purchase_payload p) = Some payment_id)
                   (purchases (working s)))) = Inr e \<and> \<not> truthy_int e)
         \<and> process_yoomoney_webhook self s wh signature now
             = record_and_activate s (yoomoney_purchase user_id pid payment_id pname wh amnt now)
                 user_id pid now)"
proof -
  obtain c s' where c: "yoomoney_check self s wh signature = (c, s')"
    by (cases "yoomoney_check self s wh signature")
  from yoomoney_check_cases [OF assms, of self s] c have s': "s' = s" by simp
  from yoomoney_check_cases [OF assms, of self s] c
  consider e where "c = Inl e" | b where "c = Inr (Return b)"
    | pid user_id payment_id pname where "c = Inr (Proceed user_id pid payment_id pname)"
        "wh_user_id wh = Some user_id" "wh_id wh = Some payment_id"
        "pid \<in> set (map plan_ident (plans (working s)))"
        "event_accepted self (GatewayWebhook wh signature now)"
        "\<exists>e. scalar_one_or_none (map purchase_id
                  (filter (\<lambda>p. yoomoney_payment_id (purchase_payload p) = Some payment_id)
                     (purchases (working s)))) = Inr e \<and> \<not> truthy_int e"
    by auto
  then show ?thesis
  proof cases
    case 1
    then show ?thesis using c s' by (simp add: process_yoomoney_webhook_def yoomoney_finish_def)
  next
    case 2
    then show ?thesis using c s' by (simp add: process_yoomoney_webhook_def yoomoney_finish_def)
  next
    case 3
    show ?thesis
    proof (cases "wh_amount_value wh = Some NotANumber")
      case True
      then show ?thesis using 3(1) c s'
        by (simp add: process_yoomoney_webhook_def yoomoney_finish_def)
    next
      case False
      then have "process_yoomoney_webhook self s wh signature now
          = record_and_activate s (yoomoney_purchase user_id pid payment_id pname wh
              (case wh_amount_value wh of Some (Number r) \<Rightarrow> r | _ \<Rightarrow> 0) now) user_id pid now"
        using 3(1) c s'
        by (simp add: process_yoomoney_webhook_def yoomoney_finish_def
            split: option.splits json_number.splits)
      then show ?thesis using 3(2-6) by blast
    qed
  qed
qed


lemma record_and_activate_atomic:
  assumes "status p = ''completed''" "purchase_user_id p = user_id" "purchase_plan_id p = pid"
    and "pid \<in> set (map plan_ident (plans (working s)))"
  shows "atomic_outcome s user_id now (record_and_activate s p user_id pid now)"
proof (cases "users (working s) user_id")
  case None
  then show ?thesis
    using assms by (simp add: record_and_activate_eq atomic_outcome_def references_exist_def)
next
  case (Some u)
  have refs: "references_exist (working s) p"
    using Some assms by (simp add: references_exist_def)
  have "\<exists>u' p'. users (working s) user_id = Some u' \<and> status p' = ''completed''
         \<and> purchase_user_id p' = user_id
         \<and> (working s)\<lparr>
                users := (users (working s))(user_id \<mapsto>
                   u\<lparr>plan_id := Some pid, plan_until := Some (now + timedelta_days 30)\<rparr>),
                purchases := purchases (working s) @
                   [p\<lparr>purchase_id := int (Suc (purchases_id_seq s))\<rparr>]\<rparr>
           = (working s)\<lparr>
                users := (users (working s))(user_id \<mapsto>
                   u'\<lparr>plan_id := Some (purchase_plan_id p'),
                      plan_until := Some (now + timedelta_days 30)\<rparr>),
                purchases := purchases (working s) @ [p']\<rparr>"
    using Some assms
    by (intro exI [of _ u] exI [of _ "p\<lparr>purchase_id := int (Suc (purchases_id_seq s))\<rparr>"]) simp
  then show ?thesis using Some refs by (simp add: record_and_activate_eq atomic_outcome_def)
qed

lemma atomic_outcome_same: "atomic_outcome s user_id now (r, s)"
  by (simp add: atomic_outcome_def)

lemma process_stars_payment_atomic:
  assumes "sql_plain (stars_idempotency_key user_id pname charge_id)" "sql_plain pname"
  shows "atomic_outcome s user_id now
           (process_stars_payment self s user_id pname charge_id amnt now)"
proof -
  from process_stars_payment_cases [OF assms, of self s amnt now]
  show ?thesis
  proof (elim disjE exE conjE)
    assume "snd (process_stars_payment self s user_id pname charge_id amnt now) = s"
    then show ?thesis
      using atomic_outcome_same [of s user_id now
              "fst (process_stars_payment self s user_id pname charge_id amnt now)"]
      by (metis prod.collapse)
  next
    fix pid e
    assume "pid \<in> set (map plan_ident (plans (working s)))"
      and "process_stars_payment self s user_id pname charge_id amnt now
             = record_and_activate s (stars_purchase user_id pid pname charge_id amnt now)
                 user_id pid now"
    then show ?thesis by (simp add: record_and_activate_atomic)
  qed
qed

lemma process_yoomoney_webhook_atomic:
  assumes "event_plain (GatewayWebhook wh signature now)"
    and "wh_user_id wh = Some user_id"
  shows "atomic_outcome s user_id now (process_yoomoney_webhook self s wh signature now)"
proof -
  from process_yoomoney_webhook_cases [OF assms(1), of self s]
  show ?thesis
  proof (elim disjE exE conjE)
    assume "snd (process_yoomoney_webhook self s wh signature now) = s"
    then show ?thesis
      using atomic_outcome_same [of s user_id now
              "fst (process_yoomoney_webhook self s wh signature now)"]
      by (metis prod.collapse)
  next
    fix pid uid payment_id pname amnt e
    assume "wh_user_id wh = Some uid"
      and "pid \<in> set (map plan_ident (plans (working s)))"
      and "process_yoomoney_webhook self s wh signature now
             = record_and_activate s (yoomoney_purchase uid pid payment_id pname wh amnt now)
                 uid pid now"
    then show ?thesis using assms(2) by (simp add: record_and_activate_atomic)
  qed
qed

lemma process_yoomoney_webhook_no_user_id:
  assumes "wh_user_id wh = None"
  shows "process_yoomoney_webhook self s wh signature now = (Inr False, s)"
  using assms
  by (simp add: process_yoomoney_webhook_def yoomoney_check_def yoomoney_finish_def truthy_int_def)

lemma scalar_falsy_empty:
  assumes "scalar_one_or_none (map purchase_id xs) = Inr e" "\<not> truthy_int e"
    and "\<forall>p \<in> set xs. purchase_id p \<noteq> 0"
  shows "xs = []"
  using assms by (cases xs rule: scalar_one_or_none.cases) (auto simp: truthy_int_def)

lemma reconciled_db_insert:
  assumes ok: "reconciled_db d"
    and st: "status p = ''completed''"
    and idn: "purchase_id p \<noteq> 0"
    and k1: "\<forall>k. idempotency_key (purchase_payload p) = Some k \<longrightarrow> completed_in_app d k = []"
    and k2: "\<forall>k. yoomoney_payment_id (purchase_payload p) = Some k \<longrightarrow> completed_gateway d k = []"
  shows "reconciled_db (d\<lparr>users := us, purchases := purchases d @ [p]\<rparr>)"
proof -
  have a: "length (completed_in_app (d\<lparr>users := us, purchases := purchases d @ [p]\<rparr>) k) \<le> 1" for k
    using ok k1 by (auto simp: reconciled_db_def completed_in_app_def)
  have b: "length (completed_gateway (d\<lparr>users := us, purchases := purchases d @ [p]\<rparr>) k) \<le> 1" for k
    using ok k2 by (auto simp: reconciled_db_def completed_gateway_def)
  have c: "\<forall>q \<in> set (purchases (d\<lparr>users := us, purchases := purchases d @ [p]\<rparr>)).
             purchase_id q \<noteq> 0 \<and> status q = ''completed''"
    using ok st idn by (auto simp: reconciled_db_def)
  show ?thesis using a b c by (simp add: reconciled_db_def del: One_nat_def)
qed

lemma record_and_activate_reconciled:
  assumes ok: "reconciled s"
    and st: "status p = ''completed''"
    and k1: "\<forall>k. idempotency_key (purchase_payload p) = Some k \<longrightarrow> completed_in_app (working s) k = []"
    and k2: "\<forall>k. yoomoney_payment_id (purchase_payload p) = Some k \<longrightarrow> completed_gateway (working s) k = []"
  shows "reconciled (snd (record_and_activate s p user_id pid now))"
proof (cases "foreign_keys s \<and> \<not> references_exist (working s) p")
  case True
  then show ?thesis using ok by (simp add: record_and_activate_eq reconciled_def)
next
  case nofail: False
  show ?thesis
  proof (cases "users (working s) user_id")
    case None
    then show ?thesis using ok nofail by (simp add: record_and_activate_eq reconciled_def)
  next
    case (Some u)
    let ?p = "p\<lparr>purchase_id := int (Suc (purchases_id_seq s))\<rparr>"
    have "reconciled_db ((working s)\<lparr>users := (users (working s))(user_id \<mapsto>
                     u\<lparr>plan_id := Some pid, plan_until := Some (now + timedelta_days 30)\<rparr>),
                  purchases := purchases (working s) @ [?p]\<rparr>)"
      using ok st k1 k2 by (intro reconciled_db_insert) (simp_all add: reconciled_def)
    then show ?thesis using Some nofail ok by (auto simp: record_and_activate_eq reconciled_def)
  qed
qed

lemma no_row_no_completed_in_app:
  assumes "filter (\<lambda>p. idempotency_key (purchase_payload p) = Some k) (purchases d) = []"
  shows "completed_in_app d k = []"
  using assms by (auto simp: completed_in_app_def filter_empty_conv)

lemma no_row_no_completed_gateway:
  assumes "filter (\<lambda>p. yoomoney_payment_id (purchase_payload p) = Some k) (purchases d) = []"
  shows "completed_gateway d k = []"
  using assms by (auto simp: completed_gateway_def filter_empty_conv)

lemma process_stars_payment_reconciled:
  assumes ok: "reconciled s"
    and plain: "sql_plain (stars_idempotency_key user_id pname charge_id)" "sql_plain pname"
  shows "reconciled (snd (process_stars_payment self s user_id pname charge_id amnt now))"
proof -
  from process_stars_payment_cases [OF plain, of self s amnt now]
  show ?thesis
  proof (elim disjE exE conjE)
    assume "snd (process_stars_payment self s user_id pname charge_id amnt now) = s"
    then show ?thesis using ok by simp
  next
    fix pid e
    let ?k = "stars_idempotency_key user_id pname charge_id"
    let ?rows = "filter (\<lambda>p. idempotency_key (purchase_payload p) = Some ?k) (purchases (working s))"
    assume sc: "scalar_one_or_none (map purchase_id ?rows) = Inr e" "\<not> truthy_int e"
      and eq: "process_stars_payment self s user_id pname charge_id amnt now
             = record_and_activate s (stars_purchase user_id pid pname charge_id amnt now)
                 user_id pid now"
    have "\<forall>p \<in> set ?rows. purchase_id p \<noteq> 0"
      using ok by (simp add: reconciled_def reconciled_db_def)
    with sc have "?rows = []" by (rule scalar_falsy_empty)
    then have "completed_in_app (working s) ?k = []" by (rule no_row_no_completed_in_app)
    then show ?thesis using ok eq by (simp add: record_and_activate_reconciled)
  qed
qed

lemma process_yoomoney_webhook_reconciled:
  assumes ok: "reconciled s"
    and plain: "event_plain (GatewayWebhook wh signature now)"
  shows "reconciled (snd (process_yoomoney_webhook self s wh signature now))"
proof -
  from process_yoomoney_webhook_cases [OF plain, of self s]
  show ?thesis
  proof (elim disjE exE conjE)
    assume "snd (process_yoomoney_webhook self s wh signature now) = s"
    then show ?thesis using ok by simp
  next
    fix pid uid payment_id pname amnt e
    let ?rows = "filter (\<lambda>p. yoomoney_payment_id (purchase_payload p) = Some payment_id)
                   (purchases (working s))"
    assume sc: "scalar_one_or_none (map purchase_id ?rows) = Inr e" "\<not> truthy_int e"
      and eq: "process_yoomoney_webhook self s wh signature now
             = record_and_activate s (yoomoney_purchase uid pid payment_id pname wh amnt now)
                 uid pid now"
    have "\<forall>p \<in> set ?rows. purchase_id p \<noteq> 0"
      using ok by (simp add: reconciled_def reconciled_db_def)
    with sc have "?rows = []" by (rule scalar_falsy_empty)
    then have "completed_gateway (working s) payment_id = []" by (rule no_row_no_completed_gateway)
    then show ?thesis using ok eq by (simp add: record_and_activate_reconciled)
  qed
qed

lemma process_event_reconciled:
  "reconciled s \<Longrightarrow> event_plain ev \<Longrightarrow> reconciled (snd (process_event self s ev))"
  by (cases ev) (simp_all add: process_stars_payment_reconciled process_yoomoney_webhook_reconciled)

lemma process_events_reconciled:
  "reconciled s \<Longrightarrow> \<forall>ev \<in> set evs. event_plain ev
     \<Longrightarrow> \<forall>out \<in> set (process_events self s evs). reconciled (snd out)"
proof (induction evs arbitrary: s)
  case Nil
  then show ?case by simp
next
  case (Cons ev evs)
  obtain r s' where ev: "process_event self s ev = (r, s')" by (cases "process_event self s ev")
  have "reconciled s'"
    using process_event_reconciled [OF Cons.prems(1), of ev self] Cons.prems(2) ev by simp
  then show ?case using Cons.IH [of s'] Cons.prems(2) ev by auto
qed

lemma single_completed_row:
  assumes ok: "reconciled_db d" and ne: "filter P (purchases d) \<noteq> []"
    and le: "length (filter (\<lambda>p. status p = ''completed'' \<and> P p) (purchases d)) \<le> 1"
  shows "\<exists>p. filter P (purchases d) = [p] \<and> purchase_id p \<noteq> 0"
proof -
  have all: "\<forall>p \<in> set (purchases d). purchase_id p \<noteq> 0 \<and> status p = ''completed''"
    using ok by (simp add: reconciled_db_def)
  then have same: "filter (\<lambda>p. status p = ''completed'' \<and> P p) (purchases d) = filter P (purchases d)"
    by (intro filter_cong) auto
  obtain p ps where ps: "filter P (purchases d) = p # ps" using ne by (cases "filter P (purchases d)") auto
  with le same have "ps = []" by simp
  moreover have "p \<in> set (purchases d)"
    using ps by (metis filter_is_subset list.set_intros(1) subsetD)
  ultimately show ?thesis using ps all by auto
qed

lemma process_event_duplicate:
  assumes ok: "reconciled s"
    and plain: "event_plain ev"
    and dup: "event_key_completed (working s) ev"
    and acc: "event_accepted self ev"
  shows "process_event self s ev = (Inr True, s)"
proof (cases ev)
  case (StarsPayment user_id pname charge_id amnt now)
  let ?k = "stars_idempotency_key user_id pname charge_id"
  let ?P = "\<lambda>p. idempotency_key (purchase_payload p) = Some ?k"
  have pl: "sql_plain ?k" "sql_plain pname" using plain StarsPayment by simp_all
  have ne: "filter ?P (purchases (working s)) \<noteq> []"
    using dup StarsPayment no_row_no_completed_in_app [of ?k "working s"] by auto
  have le: "length (filter (\<lambda>p. status p = ''completed'' \<and> ?P p) (purchases (working s))) \<le> 1"
    using ok by (simp add: reconciled_def reconciled_db_def completed_in_app_def)
  from single_completed_row [of "working s" ?P, OF _ ne le] ok
  obtain p where "filter ?P (purchases (working s)) = [p]" "purchase_id p \<noteq> 0"
    by (auto simp: reconciled_def)
  then show ?thesis using StarsPayment
    by (simp add: process_stars_payment_plain [OF pl] truthy_int_def)
next
  case (GatewayWebhook wh signature now)
  from dup GatewayWebhook obtain k where k: "wh_id wh = Some k" "completed_gateway (working s) k \<noteq> []"
    by (auto split: option.splits)
  let ?P = "\<lambda>p. yoomoney_payment_id (purchase_payload p) = Some k"
  have ne: "filter ?P (purchases (working s)) \<noteq> []"
    using k no_row_no_completed_gateway [of k "working s"] by auto
  have le: "length (filter (\<lambda>p. status p = ''completed'' \<and> ?P p) (purchases (working s))) \<le> 1"
    using ok by (simp add: reconciled_def reconciled_db_def completed_gateway_def)
  from single_completed_row [of "working s" ?P, OF _ ne le] ok
  obtain p where p: "filter ?P (purchases (working s)) = [p]" "purchase_id p \<noteq> 0"
    by (auto simp: reconciled_def)
  obtain uid pname where m: "wh_user_id wh = Some uid" "wh_plan_name wh = Some pname"
    using acc GatewayWebhook by (auto simp: truthy_int_def truthy_str_def split: option.splits)
  have pl: "sql_plain k" "sql_plain pname" using plain GatewayWebhook k m by simp_all
  have acc': "event_accepted self (GatewayWebhook wh signature now)" using acc GatewayWebhook by simp
  show ?thesis using GatewayWebhook p
    by (simp add: process_yoomoney_webhook_def yoomoney_check_plain [OF k(1) m pl acc']
        yoomoney_finish_def truthy_int_def)
qed

lemma record_and_activate_True:
  assumes "record_and_activate s p user_id pid now = (Inr True, s')"
  shows "purchases (working s')
     = purchases (working s) @ [p\<lparr>purchase_id := int (Suc (purchases_id_seq s))\<rparr>]"
  using assms by (auto simp: record_and_activate_eq split: option.splits if_splits)

lemma process_event_twice:
  assumes ok: "reconciled s"
    and plain: "event_plain ev"
    and first: "process_event self s ev = (Inr True, s')"
  shows "process_event self s' ev = (Inr True, s')"
proof (cases "s' = s")
  case True
  then show ?thesis using first by simp
next
  case False
  have ok': "reconciled s'"
    using process_event_reconciled [OF ok plain, of self] first by simp
  show ?thesis
  proof (cases ev)
    case (StarsPayment user_id pname charge_id amnt now)
    have pl: "sql_plain (stars_idempotency_key user_id pname charge_id)" "sql_plain pname"
      using plain StarsPayment by simp_all
    from process_stars_payment_cases [OF pl, of self s amnt now]
      first StarsPayment False
    obtain pid where "record_and_activate s (stars_purchase user_id pid pname charge_id amnt now)
                 user_id pid now = (Inr True, s')"
      by auto
    from record_and_activate_True [OF this]
    have "completed_in_app (working s') (stars_idempotency_key user_id pname charge_id) \<noteq> []"
      by (simp add: completed_in_app_def)
    then show ?thesis
      using process_event_duplicate [OF ok' plain, of self] StarsPayment by simp
  next
    case (GatewayWebhook wh signature now)
    have pl: "event_plain (GatewayWebhook wh signature now)" using plain GatewayWebhook by simp
    from process_yoomoney_webhook_cases [OF pl, of self s]
      first GatewayWebhook False
    obtain pid user_id payment_id pname amnt where
      w: "wh_id wh = Some payment_id" "event_accepted self (GatewayWebhook wh signature now)"
        "record_and_activate s (yoomoney_purchase user_id pid payment_id pname wh amnt now)
                 user_id pid now = (Inr True, s')"
      by auto
    from record_and_activate_True [OF w(3)]
    have "completed_gateway (working s') payment_id \<noteq> []"
      by (simp add: completed_gateway_def)
    then show ?thesis
      using process_event_duplicate [OF ok' plain, of self] GatewayWebhook w(1,2) by simp
  qed
qed


text \<open>
  C2, as amended. Payments are processed one after the other, on a purchase table that only
  the reconciler has written, and the keys and plan names that the events have formatted
  into statement text are plain. Then in every session on the way, in the durable state and
  in the open transaction, no idempotency key has more than one completed purchase. An
  accepted event whose key already has a completed purchase reports success and returns
  the session as it was: nothing is inserted and no plan is activated. In particular an
  event that has just been processed with success, processed again, reports success and
  changes nothing.
\<close>

theorem one_completed_purchase_per_key:
  assumes "reconciled s"
    and "\<forall>e \<in> set evs. event_plain e"
    and "event_plain ev"
  shows "(\<forall>out \<in> set (process_events self s evs).
            reconciled (snd out)
          \<and> (\<forall>k. length (completed_in_app (committed (snd out)) k) \<le> 1
                 \<and> length (completed_gateway (committed (snd out)) k) \<le> 1
                 \<and> length (completed_in_app (working (snd out)) k) \<le> 1
                 \<and> length (completed_gateway (working (snd out)) k) \<le> 1))
    \<and> (event_key_completed (working s) ev \<and> event_accepted self ev
          \<longrightarrow> process_event self s ev = (Inr True, s))
    \<and> (\<forall>s'. process_event self s ev = (Inr True, s')
          \<longrightarrow> process_event self s' ev = (Inr True, s'))"
proof -
  have a: "\<forall>out \<in> set (process_events self s evs).
            reconciled (snd out)
          \<and> (\<forall>k. length (completed_in_app (committed (snd out)) k) \<le> 1
                 \<and> length (completed_gateway (committed (snd out)) k) \<le> 1
                 \<and> length (completed_in_app (working (snd out)) k) \<le> 1
                 \<and> length (completed_gateway (working (snd out)) k) \<le> 1)"
    using process_events_reconciled [OF assms(1,2), of self]
    by (simp add: reconciled_def reconciled_db_def del: One_nat_def)
  have b: "event_key_completed (working s) ev \<and> event_accepted self ev
          \<longrightarrow> process_event self s ev = (Inr True, s)"
    using process_event_duplicate [OF assms(1,3)] by blast
  have c: "\<forall>s'. process_event self s ev = (Inr True, s')
          \<longrightarrow> process_event self s' ev = (Inr True, s')"
    using process_event_twice [OF assms(1,3)] by blast
  show ?thesis using a b c by (intro conjI)
qed

text \<open>
  C4. Take a payment whose key and plan name are plain. Either path ends in one of three
  ways. The session is returned as it was. Or the user row is missing and the transaction
  is over without a trace: where foreign keys are checked the insert of the purchase raises
  \<^verbatim>\<open>IntegrityError\<close>, where they are not the activation fails, the result is false and the
  transaction is rolled back; either way the durable state is the old one and the open
  transaction holds no purchase that the durable state lacks. Or the result is true and one
  commit has made durable, together, the completed purchase of that user and the user's
  plan reference and expiry of thirty days from now. No outcome has the purchase without
  the activation or the activation without the purchase.
\<close>

theorem purchase_and_activation_atomic:
  assumes "event_plain (StarsPayment user_id pname charge_id amnt now)"
    and "event_plain (GatewayWebhook wh signature now)"
  shows
  "atomic_outcome s user_id now (process_stars_payment self s user_id pname charge_id amnt now)
   \<and> (users (working s) user_id = None \<longrightarrow>
        committed (snd (process_stars_payment self s user_id pname charge_id amnt now))
          = committed s
      \<and> (snd (process_stars_payment self s user_id pname charge_id amnt now) = s
         \<or> fst (process_stars_payment self s user_id pname charge_id amnt now)
               = (if foreign_keys s then Inl IntegrityError else Inr False)
           \<and> working (snd (process_stars_payment self s user_id pname charge_id amnt now))
               = committed s))
   \<and> (wh_user_id wh = None \<longrightarrow>
        process_yoomoney_webhook self s wh signature now = (Inr False, s))
   \<and> (wh_user_id wh = Some user_id \<longrightarrow>
        atomic_outcome s user_id now (process_yoomoney_webhook self s wh signature now)
      \<and> (users (working s) user_id = None \<longrightarrow>
           committed (snd (process_yoomoney_webhook self s wh signature now)) = committed s
         \<and> (snd (process_yoomoney_webhook self s wh signature now) = s
            \<or> fst (process_yoomoney_webhook self s wh signature now)
                  = (if foreign_keys s then Inl IntegrityError else Inr False)
              \<and> working (snd (process_yoomoney_webhook self s wh signature now))
                  = committed s)))"
proof -
  have rb: "committed (snd out) = committed s
      \<and> (snd out = s
         \<or> fst out = (if foreign_keys s then Inl IntegrityError else Inr False)
           \<and> working (snd out) = committed s)"
    if "atomic_outcome s user_id now out" "users (working s) user_id = None" for out
    using that by (cases out) (auto simp: atomic_outcome_def)
  have st: "atomic_outcome s user_id now
              (process_stars_payment self s user_id pname charge_id amnt now)"
    using assms(1) by (simp add: process_stars_payment_atomic)
  have yo: "atomic_outcome s user_id now (process_yoomoney_webhook self s wh signature now)"
    if "wh_user_id wh = Some user_id"
    using assms(2) that by (rule process_yoomoney_webhook_atomic)
  show ?thesis
    using st yo rb process_yoomoney_webhook_no_user_id [of wh self s signature now]
    by blast
qed

text \<open>
  C5, as amended. A gateway notification that passes signature verification but whose status
  is not \<open>succeeded\<close> changes nothing: no purchase is written and no plan is activated. It is
  reported as a failure all the same: \<^verbatim>\<open>process_yoomoney_webhook\<close> returns false, and the
  endpoint answers 400.
\<close>

theorem not_succeeded_is_rejected:
  assumes "verify_yoomoney_signature self wh signature"
    and "wh_status wh \<noteq> Some ''succeeded''"
  shows "process_yoomoney_webhook self s wh signature now = (Inr False, s)
    \<and> yoomoney_webhook self s (Some signature) (Some wh) now
        = (Inr (HTTPException 400
                  (if signature = [] then ''Missing signature''
                   else ''Webhook processing failed'')), s)"
  using assms
  by (simp add: process_yoomoney_webhook_def yoomoney_check_def yoomoney_finish_def
      yoomoney_webhook_def)


subsection \<open>The reconciler on the sample store\<close>

theorem not_succeeded_is_rejected_witness:
  "verify_yoomoney_signature gateway (pay_123 ''pending'') ''whsecpay_123pending''
   \<and> wh_status (pay_123 ''pending'') \<noteq> Some ''succeeded''
   \<and> process_yoomoney_webhook gateway (fresh_session shop) (pay_123 ''pending'')
        ''whsecpay_123pending'' noon = (Inr False, fresh_session shop)
   \<and> yoomoney_webhook gateway (fresh_session shop) (Some ''whsecpay_123pending'')
        (Some (pay_123 ''pending'')) noon
       = (Inr (HTTPException 400 ''Webhook processing failed''), fresh_session shop)"
proof -
  have h1: "verify_yoomoney_signature gateway (pay_123 ''pending'') ''whsecpay_123pending''"
    by (simp add: verify_yoomoney_signature_def gateway_def pay_123_def)
  have h2: "wh_status (pay_123 ''pending'') \<noteq> Some ''succeeded''"
    by (simp add: pay_123_def)
  show ?thesis
    using h1 h2 not_succeeded_is_rejected [OF h1 h2, of "fresh_session shop" noon] by simp
qed

text \<open>
  The claim has such a notification ignored without being an error; the sample gateway's
  pending notification is answered with the failure response.
\<close>

theorem not_succeeded_counterexample:
  "fst (process_yoomoney_webhook gateway (fresh_session shop) (pay_123 ''pending'')
          ''whsecpay_123pending'' noon) = Inr False
   \<and> fst (yoomoney_webhook gateway (fresh_session shop) (Some ''whsecpay_123pending'')
          (Some (pay_123 ''pending'')) noon)
       = Inr (HTTPException 400 ''Webhook processing failed'')"
  by (simp add: yoomoney_webhook_def process_yoomoney_webhook_def yoomoney_check_def
      yoomoney_finish_def verify_yoomoney_signature_def gateway_def pay_123_def truthy_str_def)

lemma pay_123_plain:
  "event_plain (GatewayWebhook (pay_123 st) signature now)"
  by (simp add: pay_123_def sql_plain_def)

lemma pay_123_check:
  "yoomoney_check gateway (fresh_session shop) (pay_123 ''succeeded'')
      ''whsecpay_123succeeded''
   = (Inr (Proceed 7 2 ''pay_123'' ''Pro''), fresh_session shop)"
  by (simp add: yoomoney_check_def execute_scalar_def sql_plain_def
      verify_yoomoney_signature_def gateway_def pay_123_def truthy_str_def truthy_int_def
      fresh_session_def shop_def pro_def business_def)

lemma pay_123_first:
  "process_yoomoney_webhook gateway (fresh_session shop) (pay_123 ''succeeded'')
      ''whsecpay_123succeeded'' noon
   = (Inr True,
      \<lparr>committed = shop\<lparr>
          users := (users shop)(7 \<mapsto> \<lparr>trial_left = 2, plan_id = Some 2,
                       plan_until = Some (noon + timedelta_days 30), banned = False\<rparr>),
          purchases := [(yoomoney_purchase 7 2 ''pay_123'' ''Pro'' (pay_123 ''succeeded'') 799 noon)
                          \<lparr>purchase_id := 1\<rparr>]\<rparr>,
       working = shop\<lparr>
          users := (users shop)(7 \<mapsto> \<lparr>trial_left = 2, plan_id = Some 2,
                       plan_until = Some (noon + timedelta_days 30), banned = False\<rparr>),
          purchases := [(yoomoney_purchase 7 2 ''pay_123'' ''Pro'' (pay_123 ''succeeded'') 799 noon)
                          \<lparr>purchase_id := 1\<rparr>]\<rparr>,
       purchases_id_seq = 1, foreign_keys = True\<rparr>)"
proof -
  have amount: "wh_amount_value (pay_123 ''succeeded'') = Some (Number 799)"
    by (simp add: pay_123_def)
  show ?thesis
    by (simp add: process_yoomoney_webhook_def pay_123_check yoomoney_finish_def amount
        record_and_activate_eq references_exist_def)
      (simp add: fresh_session_def shop_def pro_def business_def)
qed

lemma reconciled_fresh_shop: "reconciled (fresh_session shop)"
  by (simp add: reconciled_def reconciled_db_def fresh_session_def shop_def
      completed_in_app_def completed_gateway_def)

theorem one_completed_purchase_per_key_witness:
  "reconciled (fresh_session shop)
   \<and> event_plain (GatewayWebhook (pay_123 ''succeeded'') ''whsecpay_123succeeded'' noon)
   \<and> event_plain
        (GatewayWebhook (pay_123 ''succeeded'') ''whsecpay_123succeeded'' (noon + 60000000))
   \<and> fst (process_event gateway (fresh_session shop)
            (GatewayWebhook (pay_123 ''succeeded'') ''whsecpay_123succeeded'' noon)) = Inr True
   \<and> length (completed_gateway
        (committed (snd (process_event gateway (fresh_session shop)
            (GatewayWebhook (pay_123 ''succeeded'') ''whsecpay_123succeeded'' noon))))
        ''pay_123'') = 1
   \<and> event_key_completed
        (working (snd (process_event gateway (fresh_session shop)
            (GatewayWebhook (pay_123 ''succeeded'') ''whsecpay_123succeeded'' noon))))
        (GatewayWebhook (pay_123 ''succeeded'') ''whsecpay_123succeeded'' (noon + 60000000))
   \<and> event_accepted gateway
        (GatewayWebhook (pay_123 ''succeeded'') ''whsecpay_123succeeded'' (noon + 60000000))
   \<and> process_event gateway
        (snd (process_event gateway (fresh_session shop)
            (GatewayWebhook (pay_123 ''succeeded'') ''whsecpay_123succeeded'' noon)))
        (GatewayWebhook (pay_123 ''succeeded'') ''whsecpay_123succeeded'' (noon + 60000000))
       = (Inr True,
          snd (process_event gateway (fresh_session shop)
            (GatewayWebhook (pay_123 ''succeeded'') ''whsecpay_123succeeded'' noon)))"
proof -
  let ?ev = "GatewayWebhook (pay_123 ''succeeded'') ''whsecpay_123succeeded'' noon"
  let ?retry = "GatewayWebhook (pay_123 ''succeeded'') ''whsecpay_123succeeded'' (noon + 60000000)"
  let ?s1 = "snd (process_event gateway (fresh_session shop) ?ev)"
  have h: "reconciled (fresh_session shop)" by (rule reconciled_fresh_shop)
  have p1: "event_plain ?ev" by (rule pay_123_plain)
  have p2: "event_plain ?retry" by (rule pay_123_plain)
  have ps: "\<forall>e \<in> set [?ev]. event_plain e" using p1 by simp
  have p0: "\<forall>e \<in> set []. event_plain e" by simp
  have first: "fst (process_event gateway (fresh_session shop) ?ev) = Inr True"
    by (simp add: pay_123_first)
  have one: "length (completed_gateway (committed ?s1) ''pay_123'') = 1"
    by (simp add: pay_123_first completed_gateway_def)
  have id: "wh_id (pay_123 ''succeeded'') = Some ''pay_123''" by (simp add: pay_123_def)
  have dup: "event_key_completed (working ?s1) ?retry"
    by (simp add: pay_123_first completed_gateway_def id)
  have acc: "event_accepted gateway ?retry"
    by (simp add: verify_yoomoney_signature_def gateway_def pay_123_def truthy_str_def
        truthy_int_def)
  have "(process_event gateway (fresh_session shop) ?ev)
          \<in> set (process_events gateway (fresh_session shop) [?ev])"
    by (simp split: prod.splits)
  with one_completed_purchase_per_key [OF h ps p1, of gateway]
  have h1: "reconciled ?s1" by blast
  from one_completed_purchase_per_key [OF h1 p0 p2, of gateway] dup acc
  have "process_event gateway ?s1 ?retry = (Inr True, ?s1)" by blast
  then show ?thesis using h p1 p2 first one dup acc by (intro conjI)
qed

text \<open>
  The claim has at most one completed purchase per key at all times. The gateway delivers
  the notification of payment \<open>pay_123\<close> twice, and the two handlers run side by side: both
  look for the payment id before either has inserted, both find nothing, and both insert
  and commit. Both report success, the store holds two completed purchases of payment
  \<open>pay_123\<close>, and the plan has been activated twice.
\<close>

theorem racing_deliveries_counterexample:
  "fst (racing_deliveries gateway (fresh_session shop) (pay_123 ''succeeded'')
          ''whsecpay_123succeeded'' noon) = Inr True
   \<and> fst (snd (racing_deliveries gateway (fresh_session shop) (pay_123 ''succeeded'')
          ''whsecpay_123succeeded'' noon)) = Inr True
   \<and> length (completed_gateway
        (committed (snd (snd (racing_deliveries gateway (fresh_session shop)
           (pay_123 ''succeeded'') ''whsecpay_123succeeded'' noon))))
        ''pay_123'') = 2"
proof -
  have amount: "wh_amount_value (pay_123 ''succeeded'') = Some (Number 799)"
    by (simp add: pay_123_def)
  show ?thesis
    by (simp add: racing_deliveries_def pay_123_check yoomoney_finish_def amount
        record_and_activate_eq references_exist_def after_other_def completed_gateway_def)
      (simp add: fresh_session_def shop_def pro_def business_def)
qed

theorem purchase_and_activation_atomic_witness:
  "event_plain (StarsPayment 8 ''Pro'' ''ch_2'' 2500 noon)
   \<and> event_plain (GatewayWebhook (pay_123 ''succeeded'') ''whsecpay_123succeeded'' noon)
   \<and> users (working (fresh_session shop)) 8 = None
   \<and> fst (process_stars_payment gateway (fresh_session shop) 8 ''Pro'' ''ch_2'' 2500 noon)
       = Inl IntegrityError
   \<and> committed (snd (process_stars_payment gateway (fresh_session shop) 8 ''Pro'' ''ch_2''
       2500 noon)) = shop
   \<and> working (snd (process_stars_payment gateway (fresh_session shop) 8 ''Pro'' ''ch_2''
       2500 noon)) = shop
   \<and> fst (process_stars_payment gateway ((fresh_session shop)\<lparr>foreign_keys := False\<rparr>) 8
       ''Pro'' ''ch_2'' 2500 noon) = Inr False
   \<and> committed (snd (process_stars_payment gateway
       ((fresh_session shop)\<lparr>foreign_keys := False\<rparr>) 8 ''Pro'' ''ch_2'' 2500 noon)) = shop
   \<and> working (snd (process_stars_payment gateway
       ((fresh_session shop)\<lparr>foreign_keys := False\<rparr>) 8 ''Pro'' ''ch_2'' 2500 noon)) = shop
   \<and> wh_user_id (pay_123 ''succeeded'') = Some 7
   \<and> atomic_outcome (fresh_session shop) 7 noon
        (process_yoomoney_webhook gateway (fresh_session shop) (pay_123 ''succeeded'')
           ''whsecpay_123succeeded'' noon)
   \<and> fst (process_yoomoney_webhook gateway (fresh_session shop) (pay_123 ''succeeded'')
           ''whsecpay_123succeeded'' noon) = Inr True"
proof -
  let ?on = "fresh_session shop"
  let ?off = "(fresh_session shop)\<lparr>foreign_keys := False\<rparr>"
  have digit: "digit_char 8 = CHR ''8''" by code_simp
  have key: "stars_idempotency_key 8 ''Pro'' ''ch_2'' = ''stars_8_Pro_ch_2''"
    by (simp add: stars_idempotency_key_def str_int_def str_nat.simps digit)
  have p8: "event_plain (StarsPayment 8 ''Pro'' ''ch_2'' 2500 noon)"
    by (simp add: key sql_plain_def)
  have p7: "event_plain (GatewayWebhook (pay_123 ''succeeded'') ''whsecpay_123succeeded'' noon)"
    by (rule pay_123_plain)
  have h8: "users (working ?on) 8 = None" "users (working ?off) 8 = None"
    by (simp_all add: fresh_session_def shop_def)
  have h7: "wh_user_id (pay_123 ''succeeded'') = Some 7"
    by (simp add: pay_123_def)
  have fk: "foreign_keys ?on" "\<not> foreign_keys ?off" by (simp_all add: fresh_session_def)
  have c: "committed ?on = shop" "committed ?off = shop" by (simp_all add: fresh_session_def)
  have seq_on: "purchases_id_seq (snd (process_stars_payment gateway ?on 8 ''Pro'' ''ch_2''
      2500 noon)) = 1"
    by (simp add: process_stars_payment_def key execute_scalar_def sql_plain_def
        fresh_session_def shop_def pro_def business_def record_and_activate_eq
        references_exist_def truthy_int_def)
  have seq_off: "purchases_id_seq (snd (process_stars_payment gateway ?off 8 ''Pro'' ''ch_2''
      2500 noon)) = 1"
    by (simp add: process_stars_payment_def key execute_scalar_def sql_plain_def
        fresh_session_def shop_def pro_def business_def record_and_activate_eq
        references_exist_def truthy_int_def)
  have ne_on: "snd (process_stars_payment gateway ?on 8 ''Pro'' ''ch_2'' 2500 noon) \<noteq> ?on"
  proof
    assume "snd (process_stars_payment gateway ?on 8 ''Pro'' ''ch_2'' 2500 noon) = ?on"
    then have "purchases_id_seq (snd (process_stars_payment gateway ?on 8 ''Pro'' ''ch_2''
      2500 noon)) = purchases_id_seq ?on" by simp
    then show False using seq_on by (simp add: fresh_session_def)
  qed
  have ne_off: "snd (process_stars_payment gateway ?off 8 ''Pro'' ''ch_2'' 2500 noon) \<noteq> ?off"
  proof
    assume "snd (process_stars_payment gateway ?off 8 ''Pro'' ''ch_2'' 2500 noon) = ?off"
    then have "purchases_id_seq (snd (process_stars_payment gateway ?off 8 ''Pro'' ''ch_2''
      2500 noon)) = purchases_id_seq ?off" by simp
    then show False using seq_off by (simp add: fresh_session_def)
  qed
  note on = purchase_and_activation_atomic [OF p8 p7, of ?on gateway]
  note off = purchase_and_activation_atomic [OF p8 p7, of ?off gateway]
  have digit7: "digit_char 7 = CHR ''7''" by code_simp
  have p7s: "event_plain (StarsPayment 7 ''Pro'' ''ch_2'' 2500 noon)"
    by (simp add: stars_idempotency_key_def str_int_def str_nat.simps digit7 sql_plain_def)
  note pay = purchase_and_activation_atomic [OF p7s p7, of ?on gateway]
  have a: "fst (process_stars_payment gateway ?on 8 ''Pro'' ''ch_2'' 2500 noon)
             = Inl IntegrityError
           \<and> committed (snd (process_stars_payment gateway ?on 8 ''Pro'' ''ch_2'' 2500 noon))
             = shop
           \<and> working (snd (process_stars_payment gateway ?on 8 ''Pro'' ''ch_2'' 2500 noon))
             = shop"
    using on h8(1) ne_on fk(1) c(1) by simp
  have b: "fst (process_stars_payment gateway ?off 8 ''Pro'' ''ch_2'' 2500 noon) = Inr False
           \<and> committed (snd (process_stars_payment gateway ?off 8 ''Pro'' ''ch_2'' 2500 noon))
             = shop
           \<and> working (snd (process_stars_payment gateway ?off 8 ''Pro'' ''ch_2'' 2500 noon))
             = shop"
    using off h8(2) ne_off fk(2) c(2) by simp
  have d: "atomic_outcome ?on 7 noon
        (process_yoomoney_webhook gateway ?on (pay_123 ''succeeded'')
           ''whsecpay_123succeeded'' noon)"
    using pay h7 by blast
  have e: "fst (process_yoomoney_webhook gateway ?on (pay_123 ''succeeded'')
           ''whsecpay_123succeeded'' noon) = Inr True"
    by (simp add: pay_123_first)
  show ?thesis using p8 p7 h8(1) a b h7 d e by (intro conjI) simp_all
qed

end
